theory Spec2Isabelle
  imports Complex_Main "HOL-Library.List_Lexorder" "HOL-Library.Char_ord"
begin

section \<open>Python values\<close>

text \<open>
  Both scripts work on what \<^verbatim>\<open>resp.json()\<close> returns: dynamically typed values. A
  dictionary is an association list in insertion order (a decoded JSON object has each key
  once; \<open>map_of\<close> reads the first binding). Exceptions are values of \<open>pyerr\<close>, and a
  function that can raise returns \<open>pyerr + 'a\<close>.
\<close>

datatype pyerr =
    AttributeError | TypeError | ValueError | KeyError | IndexError
  | OverflowError | ZeroDivisionError | StatisticsError | RequestError | SystemExit

text \<open>
  A Python float is an IEEE-754 double: a finite value (kept as the rational it denotes),
  an infinity or a NaN. The two zeros are one value, as they are for \<^verbatim>\<open>==\<close>.
\<close>

datatype pyfloat = Fin rat | PInf | NInf | NaN

datatype json =
    JNull
  | JBool bool
  | JInt int
  | JFloat pyfloat
  | JStr string
  | JList "json list"
  | JDict "(string \<times> json) list"

definition and_then :: "pyerr + 'a \<Rightarrow> ('a \<Rightarrow> pyerr + 'b) \<Rightarrow> pyerr + 'b" where
  "and_then r f = (case r of Inl e \<Rightarrow> Inl e | Inr v \<Rightarrow> f v)"

text \<open>\<^verbatim>\<open>except Exception\<close> catches everything but \<^verbatim>\<open>SystemExit\<close>.\<close>

definition is_Exception :: "pyerr \<Rightarrow> bool" where
  "is_Exception e = (e \<noteq> SystemExit)"

subsection \<open>Double arithmetic\<close>

text \<open>
  Every arithmetic operation on doubles returns the exact result rounded to the nearest
  double, ties to the even significand. \<open>ilog2 x\<close> is the binary exponent of a positive
  \<open>x\<close>; the spacing of doubles around \<open>x\<close> is \<open>2 ^ (e - 52)\<close>, with \<open>e\<close> no smaller
  than \<open>-1022\<close> (the subnormal range); results of magnitude \<open>2 ^ 1024\<close> are infinite.
\<close>

function ilog2 :: "rat \<Rightarrow> int" where
  "ilog2 x = (if x \<le> 0 then 0
              else if 2 \<le> x then ilog2 (x / 2) + 1
              else if x < 1 then ilog2 (x * 2) - 1
              else 0)"
  by pat_completeness auto
termination
proof (relation "measure (\<lambda>x. nat \<lfloor>x\<rfloor> + 2 * nat \<lceil>1 / x\<rceil>)", goal_cases)
  case 1
  show ?case by simp
next
  case (2 x)
  then have x2: "2 \<le> x" by simp
  have a: "\<lfloor>x / 2\<rfloor> < \<lfloor>x\<rfloor>" using x2 by linarith
  have b: "\<lceil>1 / (x / 2)\<rceil> = 1" using x2 by (simp add: ceiling_eq_iff)
  have c: "\<lceil>1 / x\<rceil> = 1" using x2 by (simp add: ceiling_eq_iff)
  have d: "0 < \<lfloor>x\<rfloor>" using x2 by linarith
  show ?case using a b c d by simp
next
  case (3 x)
  then have x01: "0 < x" "x < 1" by simp_all
  define c where "c = \<lceil>1 / x\<rceil>"
  have a: "\<lfloor>x * 2\<rfloor> \<le> 1" using x01 by linarith
  have y: "1 < 1 / x" using x01 by simp
  have c2: "2 \<le> c" unfolding c_def using y by linarith
  then have c2r: "(2::rat) \<le> of_int c" by linarith
  have yc: "1 / x \<le> of_int c" unfolding c_def by simp
  have h: "1 / (x * 2) = (1 / x) / 2" by simp
  have "1 / (x * 2) \<le> of_int (c - 1)" unfolding h using yc c2r by simp
  then have e: "\<lceil>1 / (x * 2)\<rceil> \<le> c - 1" by (simp only: ceiling_le_iff)
  have g: "0 < \<lceil>1 / (x * 2)\<rceil>" using x01 by simp
  have n1: "nat \<lfloor>x * 2\<rfloor> \<le> 1" using a by linarith
  have n2: "nat \<lceil>1 / (x * 2)\<rceil> + 1 \<le> nat \<lceil>1 / x\<rceil>"
    using e g unfolding c_def by linarith
  have "nat \<lfloor>x * 2\<rfloor> + 2 * nat \<lceil>1 / (x * 2)\<rceil> < nat \<lfloor>x\<rfloor> + 2 * nat \<lceil>1 / x\<rceil>"
    using n1 n2 by linarith
  then show ?case by simp
qed

declare ilog2.simps [simp del]

definition pow2 :: "int \<Rightarrow> rat" where
  "pow2 k = (if 0 \<le> k then 2 ^ nat k else 1 / 2 ^ nat (- k))"

definition half_even :: "int \<Rightarrow> rat \<Rightarrow> int" where
  "half_even f d =
     (if d < 1 / 2 then f else if 1 / 2 < d then f + 1
      else if even f then f else f + 1)"

definition round_half_even :: "rat \<Rightarrow> int" where
  "round_half_even x = half_even \<lfloor>x\<rfloor> (x - of_int \<lfloor>x\<rfloor>)"

definition ulp_of :: "rat \<Rightarrow> rat" where
  "ulp_of x = pow2 (max (ilog2 \<bar>x\<bar>) (- 1022) - 52)"

definition round_to_quantum :: "rat \<Rightarrow> rat \<Rightarrow> rat" where
  "round_to_quantum q x = of_int (round_half_even (x / q)) * q"

definition finite_or_inf :: "rat \<Rightarrow> pyfloat" where
  "finite_or_inf y =
     (if 2 ^ 1024 \<le> y then PInf else if y \<le> - (2 ^ 1024) then NInf else Fin y)"

definition rnd :: "rat \<Rightarrow> pyfloat" where
  "rnd x = finite_or_inf (round_to_quantum (ulp_of x) x)"

text \<open>\<^verbatim>\<open>float(n)\<close> and \<^verbatim>\<open>a / b\<close> on integers: correctly rounded, \<^verbatim>\<open>OverflowError\<close>
  when the result is not finite.\<close>

definition float_of_int :: "int \<Rightarrow> pyerr + pyfloat" where
  "float_of_int n = (case rnd (of_int n) of Fin r \<Rightarrow> Inr (Fin r) | _ \<Rightarrow> Inl OverflowError)"

definition int_truediv :: "int \<Rightarrow> int \<Rightarrow> pyerr + pyfloat" where
  "int_truediv a b =
     (if b = 0 then Inl ZeroDivisionError
      else case rnd (of_int a / of_int b) of
             Fin r \<Rightarrow> Inr (Fin r)
           | _ \<Rightarrow> Inl OverflowError)"

fun fadd :: "pyfloat \<Rightarrow> pyfloat \<Rightarrow> pyfloat" where
  "fadd (Fin a) (Fin b) = rnd (a + b)"
| "fadd NaN _ = NaN"
| "fadd _ NaN = NaN"
| "fadd PInf NInf = NaN"
| "fadd NInf PInf = NaN"
| "fadd PInf _ = PInf"
| "fadd _ PInf = PInf"
| "fadd NInf _ = NInf"
| "fadd _ NInf = NInf"

fun fsign :: "pyfloat \<Rightarrow> int" where
  "fsign (Fin a) = (if a < 0 then - 1 else if a = 0 then 0 else 1)"
| "fsign PInf = 1"
| "fsign NInf = - 1"
| "fsign NaN = 0"

definition signed_inf :: "int \<Rightarrow> pyfloat" where
  "signed_inf s = (if s = 0 then NaN else if 0 < s then PInf else NInf)"

fun fmul :: "pyfloat \<Rightarrow> pyfloat \<Rightarrow> pyfloat" where
  "fmul (Fin a) (Fin b) = rnd (a * b)"
| "fmul NaN _ = NaN"
| "fmul _ NaN = NaN"
| "fmul x y = signed_inf (fsign x * fsign y)"

text \<open>Float division raises on a zero divisor, whatever the dividend.\<close>

fun fdiv :: "pyfloat \<Rightarrow> pyfloat \<Rightarrow> pyerr + pyfloat" where
  "fdiv x (Fin b) =
     (if b = 0 then Inl ZeroDivisionError
      else case x of Fin a \<Rightarrow> Inr (rnd (a / b))
                   | NaN \<Rightarrow> Inr NaN
                   | _ \<Rightarrow> Inr (signed_inf (fsign x * fsign (Fin b))))"
| "fdiv _ NaN = Inr NaN"
| "fdiv (Fin a) _ = Inr (Fin 0)"
| "fdiv _ _ = Inr NaN"

fun flt :: "pyfloat \<Rightarrow> pyfloat \<Rightarrow> bool" where
  "flt (Fin a) (Fin b) = (a < b)"
| "flt NaN _ = False"
| "flt _ NaN = False"
| "flt NInf y = (y \<noteq> NInf)"
| "flt x PInf = (x \<noteq> PInf)"
| "flt _ _ = False"

definition fgt0 :: "pyfloat \<Rightarrow> bool" where
  "fgt0 x = flt (Fin 0) x"

text \<open>\<^verbatim>\<open>round(x, 1)\<close>: the decimal with one digit nearest to the exact value of \<open>x\<close>
  (ties to even), as a double; infinities and NaN round to themselves.\<close>

fun round1 :: "pyfloat \<Rightarrow> pyfloat" where
  "round1 (Fin x) = rnd (of_int (round_half_even (x * 10)) / 10)"
| "round1 x = x"

subsection \<open>Operations on values\<close>

fun truthy :: "json \<Rightarrow> bool" where
  "truthy JNull = False"
| "truthy (JBool b) = b"
| "truthy (JInt n) = (n \<noteq> 0)"
| "truthy (JFloat f) = (f \<noteq> Fin 0)"
| "truthy (JStr s) = (s \<noteq> [])"
| "truthy (JList l) = (l \<noteq> [])"
| "truthy (JDict d) = (d \<noteq> [])"

text \<open>\<^verbatim>\<open>a or b\<close> on values.\<close>

definition py_or :: "json \<Rightarrow> json \<Rightarrow> json" where
  "py_or a b = (if truthy a then a else b)"

text \<open>\<^verbatim>\<open>obj.get(key, default)\<close>: only a dictionary has \<^verbatim>\<open>get\<close>.\<close>

definition dict_get :: "json \<Rightarrow> string \<Rightarrow> json \<Rightarrow> pyerr + json" where
  "dict_get obj key dflt =
     (case obj of
        JDict d \<Rightarrow> Inr (case map_of d key of None \<Rightarrow> dflt | Some v \<Rightarrow> v)
      | _ \<Rightarrow> Inl AttributeError)"

text \<open>\<^verbatim>\<open>obj[key]\<close> with a string key.\<close>

definition subscript :: "json \<Rightarrow> string \<Rightarrow> pyerr + json" where
  "subscript obj key =
     (case obj of
        JDict d \<Rightarrow> (case map_of d key of None \<Rightarrow> Inl KeyError | Some v \<Rightarrow> Inr v)
      | _ \<Rightarrow> Inl TypeError)"

definition lower_char :: "char \<Rightarrow> char" where
  "lower_char c =
     (case map_of (zip ''ABCDEFGHIJKLMNOPQRSTUVWXYZ'' ''abcdefghijklmnopqrstuvwxyz'') c of
        Some l \<Rightarrow> l
      | None \<Rightarrow> c)"

text \<open>\<^verbatim>\<open>s.lower()\<close> on the ASCII letters; strings are byte lists (UTF-8), and the bytes of
  other characters stay as they are. Python lowers the other letters too: that can change
  the place of a name with such letters in the sorted rows, and it changes no comparison
  with the ASCII words and patterns of the program.\<close>

definition lower :: "string \<Rightarrow> string" where
  "lower s = map lower_char s"

definition str_lower :: "json \<Rightarrow> pyerr + string" where
  "str_lower v = (case v of JStr s \<Rightarrow> Inr (lower s) | _ \<Rightarrow> Inl AttributeError)"

text \<open>
  Dictionary keys: lists and dictionaries are unhashable; numbers that compare equal are the
  same key (\<^verbatim>\<open>True == 1 == 1.0\<close>).
\<close>

fun hashable :: "json \<Rightarrow> bool" where
  "hashable (JList _) = False"
| "hashable (JDict _) = False"
| "hashable _ = True"

fun dict_key :: "json \<Rightarrow> json" where
  "dict_key (JBool b) = JInt (if b then 1 else 0)"
| "dict_key (JFloat (Fin r)) = (if of_int \<lfloor>r\<rfloor> = r then JInt \<lfloor>r\<rfloor> else JFloat (Fin r))"
| "dict_key v = v"

definition same_key :: "json \<Rightarrow> json \<Rightarrow> bool" where
  "same_key a b = (dict_key a = dict_key b)"

section \<open>jira_sprint_kpi.py\<close>

text \<open>
  The module's environment: the configured story-points field (\<^verbatim>\<open>main\<close> calls
  \<^verbatim>\<open>ensure_config\<close> first, which exits unless it is set), and the library functions the
  module calls: \<^verbatim>\<open>float\<close> on a string, \<^verbatim>\<open>datetime.fromisoformat\<close> (\<open>None\<close> is its
  \<^verbatim>\<open>ValueError\<close>), \<^verbatim>\<open>statistics.mean\<close> and \<^verbatim>\<open>statistics.stdev\<close>.
\<close>

text \<open>A \<^verbatim>\<open>datetime\<close>: its wall-clock reading in microseconds, and its UTC offset in
  microseconds when it is timezone-aware.\<close>

record pydatetime =
  wall_us :: int
  utcoffset_us :: "int option"

record pyenv =
  STORY_POINTS_FIELD :: string
  float_of_str :: "string \<Rightarrow> pyfloat option"
  fromisoformat :: "string \<Rightarrow> pydatetime option"
  statistics_mean :: "pyfloat list \<Rightarrow> pyerr + pyfloat"
  statistics_stdev :: "pyfloat list \<Rightarrow> pyerr + pyfloat"

definition DONE_STATUS_CATEGORIES :: "string set" where
  "DONE_STATUS_CATEGORIES = {''done''}"

definition get_assignee_name :: "json \<Rightarrow> pyerr + json" where
  "get_assignee_name issue =
     and_then (subscript issue ''fields'') (\<lambda>fields.
     and_then (dict_get fields ''assignee'' JNull) (\<lambda>assignee.
       if assignee = JNull then Inr (JStr ''Unassigned'')
       else and_then (dict_get assignee ''displayName'' JNull) (\<lambda>display_name.
            if truthy display_name then Inr display_name
            else and_then (dict_get assignee ''emailAddress'' JNull) (\<lambda>email.
                 if truthy email then Inr email else Inr (JStr ''Unknown'')))))"

definition get_status_category :: "json \<Rightarrow> pyerr + string" where
  "get_status_category issue =
     and_then (subscript issue ''fields'') (\<lambda>fields.
     and_then (dict_get fields ''status'' JNull) (\<lambda>status.
     and_then (dict_get (py_or status (JDict [])) ''statusCategory'' JNull) (\<lambda>status_category.
     and_then (dict_get (py_or status_category (JDict [])) ''key'' (JStr '''')) str_lower)))"

definition get_issue_type :: "json \<Rightarrow> pyerr + json" where
  "get_issue_type issue =
     and_then (subscript issue ''fields'') (\<lambda>fields.
     and_then (dict_get fields ''issuetype'' JNull) (\<lambda>issue_type.
       dict_get (py_or issue_type (JDict [])) ''name'' (JStr ''Unknown'')))"

text \<open>\<^verbatim>\<open>float(sp)\<close>.\<close>

definition py_float :: "pyenv \<Rightarrow> json \<Rightarrow> pyerr + pyfloat" where
  "py_float env v =
     (case v of
        JNull \<Rightarrow> Inl TypeError
      | JBool b \<Rightarrow> Inr (Fin (if b then 1 else 0))
      | JInt n \<Rightarrow> float_of_int n
      | JFloat f \<Rightarrow> Inr f
      | JStr s \<Rightarrow> (case float_of_str env s of None \<Rightarrow> Inl ValueError | Some f \<Rightarrow> Inr f)
      | JList _ \<Rightarrow> Inl TypeError
      | JDict _ \<Rightarrow> Inl TypeError)"

definition get_story_points :: "pyenv \<Rightarrow> json \<Rightarrow> pyerr + pyfloat" where
  "get_story_points env issue =
     and_then (subscript issue ''fields'') (\<lambda>fields.
     and_then (dict_get fields (STORY_POINTS_FIELD env) JNull) (\<lambda>sp.
       if sp = JNull then Inr (Fin 0)
       else case py_float env sp of
              Inl e \<Rightarrow> if e = TypeError \<or> e = ValueError then Inr (Fin 0) else Inl e
            | Inr f \<Rightarrow> Inr f))"

text \<open>\<^verbatim>\<open>s.replace('Z', '+00:00')\<close>.\<close>

definition replace_Z :: "string \<Rightarrow> string" where
  "replace_Z s = concat (map (\<lambda>c. if c = CHR ''Z'' then ''+00:00'' else [c]) s)"

definition parse_timestamp :: "pyenv \<Rightarrow> json \<Rightarrow> pyerr + pydatetime" where
  "parse_timestamp env v =
     (case v of
        JStr s \<Rightarrow> (case fromisoformat env (replace_Z s) of
                     None \<Rightarrow> Inl ValueError
                   | Some dt \<Rightarrow> Inr dt)
      | _ \<Rightarrow> Inl AttributeError)"

text \<open>\<^verbatim>\<open>a - b\<close> on datetimes, as the microseconds of the \<^verbatim>\<open>timedelta\<close>: a naive and an
  aware datetime cannot be subtracted.\<close>

definition datetime_sub :: "pydatetime \<Rightarrow> pydatetime \<Rightarrow> pyerr + int" where
  "datetime_sub a b =
     (case (utcoffset_us a, utcoffset_us b) of
        (None, None) \<Rightarrow> Inr (wall_us a - wall_us b)
      | (Some oa, Some ob) \<Rightarrow> Inr ((wall_us a - oa) - (wall_us b - ob))
      | _ \<Rightarrow> Inl TypeError)"

definition total_seconds :: "int \<Rightarrow> pyerr + pyfloat" where
  "total_seconds delta = int_truediv delta (10 ^ 6)"

text \<open>The body of the \<^verbatim>\<open>try\<close> block of \<^verbatim>\<open>get_cycle_time_days\<close>.\<close>

definition cycle_time_body :: "pyenv \<Rightarrow> json \<Rightarrow> pyerr + pyfloat" where
  "cycle_time_body env issue =
     and_then (subscript issue ''fields'') (\<lambda>fields.
     and_then (dict_get fields ''created'' JNull) (\<lambda>created.
     and_then (subscript issue ''fields'') (\<lambda>fields'.
     and_then (dict_get fields' ''resolutiondate'' JNull) (\<lambda>resolved.
       if \<not> truthy created \<or> \<not> truthy resolved then Inr (Fin 0)
       else and_then (parse_timestamp env created) (\<lambda>created_dt.
            and_then (parse_timestamp env resolved) (\<lambda>resolved_dt.
            and_then (datetime_sub resolved_dt created_dt) (\<lambda>delta.
            and_then (total_seconds delta) (\<lambda>secs.
            and_then (fdiv secs (Fin (24 * 3600))) (\<lambda>days.
              Inr (round1 days))))))))))"

definition get_cycle_time_days :: "pyenv \<Rightarrow> json \<Rightarrow> pyerr + pyfloat" where
  "get_cycle_time_days env issue =
     (case cycle_time_body env issue of
        Inl e \<Rightarrow> if e = ValueError \<or> e = TypeError \<or> e = AttributeError
                 then Inr (Fin 0) else Inl e
      | Inr days \<Rightarrow> Inr days)"

subsection \<open>compute_metrics\<close>

record bucket =
  total_issues :: int
  completed_issues :: int
  total_story_points :: pyfloat
  completed_story_points :: pyfloat
  issue_type_counts :: "(string \<times> int) list"
  bug_count :: int
  story_count :: int
  cycle_times :: "pyfloat list"
  story_points_list :: "pyfloat list"

text \<open>The value the \<^verbatim>\<open>defaultdict\<close> creates for a new assignee.\<close>

definition new_bucket :: bucket where
  "new_bucket =
     \<lparr>total_issues = 0, completed_issues = 0,
      total_story_points = Fin 0, completed_story_points = Fin 0,
      issue_type_counts = [], bug_count = 0, story_count = 0,
      cycle_times = [], story_points_list = []\<rparr>"

text \<open>\<^verbatim>\<open>counts[t] += 1\<close> on a \<^verbatim>\<open>defaultdict(int)\<close>.\<close>

fun bump :: "string \<Rightarrow> (string \<times> int) list \<Rightarrow> (string \<times> int) list" where
  "bump t [] = [(t, 1)]"
| "bump t ((t', n) # rest) =
     (if t' = t then (t', n + 1) # rest else (t', n) # bump t rest)"

text \<open>The updates of one loop iteration to the assignee's bucket \<open>m\<close>.\<close>

definition count_type :: "string \<Rightarrow> bucket \<Rightarrow> bucket" where
  "count_type issue_type m =
     (if lower issue_type = ''bug'' then m\<lparr>bug_count := bug_count m + 1\<rparr>
      else if lower issue_type = ''story'' then m\<lparr>story_count := story_count m + 1\<rparr>
      else m)"

definition count_done :: "string \<Rightarrow> pyfloat \<Rightarrow> pyfloat \<Rightarrow> bucket \<Rightarrow> bucket" where
  "count_done status_cat story_points cycle_time m =
     (if status_cat \<in> DONE_STATUS_CATEGORIES
      then m\<lparr>completed_issues := completed_issues m + 1,
             completed_story_points := fadd (completed_story_points m) story_points,
             cycle_times := (if fgt0 cycle_time then cycle_times m @ [cycle_time]
                             else cycle_times m)\<rparr>
      else m)"

definition add_issue :: "string \<Rightarrow> string \<Rightarrow> pyfloat \<Rightarrow> pyfloat \<Rightarrow> bucket \<Rightarrow> bucket" where
  "add_issue status_cat issue_type story_points cycle_time m =
     count_done status_cat story_points cycle_time
       (count_type issue_type
          (m\<lparr>total_issues := total_issues m + 1,
             total_story_points := fadd (total_story_points m) story_points,
             issue_type_counts := bump issue_type (issue_type_counts m),
             story_points_list := story_points_list m @ [story_points]\<rparr>))"

text \<open>\<^verbatim>\<open>m = metrics[assignee]\<close> followed by the updates \<open>f\<close>: a new assignee is added
  at the end.\<close>

fun update_bucket ::
  "json \<Rightarrow> (bucket \<Rightarrow> bucket) \<Rightarrow> (json \<times> bucket) list \<Rightarrow> (json \<times> bucket) list" where
  "update_bucket k f [] = [(k, f new_bucket)]"
| "update_bucket k f ((k', m) # rest) =
     (if same_key k' k then (k', f m) # rest else (k', m) # update_bucket k f rest)"

text \<open>One iteration of the loop. The issue type is a dictionary key and then receives
  \<^verbatim>\<open>.lower()\<close>, so anything but a string raises.\<close>

definition metrics_step ::
  "pyenv \<Rightarrow> (json \<times> bucket) list \<Rightarrow> json \<Rightarrow> pyerr + (json \<times> bucket) list" where
  "metrics_step env metrics issue =
     and_then (get_assignee_name issue) (\<lambda>assignee.
     and_then (get_status_category issue) (\<lambda>status_cat.
     and_then (get_issue_type issue) (\<lambda>issue_type.
     and_then (get_story_points env issue) (\<lambda>story_points.
     and_then (get_cycle_time_days env issue) (\<lambda>cycle_time.
       if \<not> hashable assignee \<or> \<not> hashable issue_type then Inl TypeError
       else case issue_type of
              JStr t \<Rightarrow>
                Inr (update_bucket assignee
                       (add_issue status_cat t story_points cycle_time) metrics)
            | _ \<Rightarrow> Inl AttributeError)))))"

fun metrics_loop ::
  "pyenv \<Rightarrow> (json \<times> bucket) list \<Rightarrow> json list \<Rightarrow> pyerr + (json \<times> bucket) list" where
  "metrics_loop env metrics [] = Inr metrics"
| "metrics_loop env metrics (issue # rest) =
     and_then (metrics_step env metrics issue) (\<lambda>metrics'. metrics_loop env metrics' rest)"

definition compute_metrics :: "pyenv \<Rightarrow> json list \<Rightarrow> pyerr + (json \<times> bucket) list" where
  "compute_metrics env issues = metrics_loop env [] issues"

subsection \<open>compute_sprint_totals\<close>

record totals =
  sum_total_issues :: int
  sum_completed_issues :: int
  sum_total_story_points :: pyfloat
  sum_completed_story_points :: pyfloat
  total_bugs :: int
  total_stories :: int
  all_cycle_times :: "pyfloat list"
  all_story_points :: "pyfloat list"
  assignee_story_points :: "pyfloat list"

definition zero_totals :: totals where
  "zero_totals =
     \<lparr>sum_total_issues = 0, sum_completed_issues = 0,
      sum_total_story_points = Fin 0, sum_completed_story_points = Fin 0,
      total_bugs = 0, total_stories = 0,
      all_cycle_times = [], all_story_points = [], assignee_story_points = []\<rparr>"

definition add_totals :: "bucket \<Rightarrow> totals \<Rightarrow> totals" where
  "add_totals m t =
     \<lparr>sum_total_issues = sum_total_issues t + total_issues m,
      sum_completed_issues = sum_completed_issues t + completed_issues m,
      sum_total_story_points = fadd (sum_total_story_points t) (total_story_points m),
      sum_completed_story_points =
        fadd (sum_completed_story_points t) (completed_story_points m),
      total_bugs = total_bugs t + bug_count m,
      total_stories = total_stories t + story_count m,
      all_cycle_times = all_cycle_times t @ cycle_times m,
      all_story_points = all_story_points t @ story_points_list m,
      assignee_story_points =
        (if fgt0 (total_story_points m)
         then assignee_story_points t @ [total_story_points m]
         else assignee_story_points t)\<rparr>"

fun totals_loop :: "totals \<Rightarrow> (json \<times> bucket) list \<Rightarrow> totals" where
  "totals_loop t [] = t"
| "totals_loop t ((assignee, m) # rest) =
     (if assignee = JStr ''Unassigned'' then totals_loop t rest
      else totals_loop (add_totals m t) rest)"

definition compute_sprint_totals :: "(json \<times> bucket) list \<Rightarrow> totals" where
  "compute_sprint_totals metrics = totals_loop zero_totals metrics"

subsection \<open>write_csv\<close>

text \<open>
  The file as data: one row per assignee and the summary lines. A formatted summary cell
  such as \<^verbatim>\<open>f"{completed}/{total} ({pct}%)"\<close> is kept as the tuple of its parts.
\<close>

record csv_row =
  Assignee :: string
  Total_Issues :: int
  Completed_Issues :: int
  Completion_Pct_Issues :: pyfloat
  Total_Story_Points :: pyfloat
  Completed_Story_Points :: pyfloat
  Completion_Pct_Story_Points :: pyfloat
  Avg_Story_Points_per_Issue :: pyfloat
  Avg_Cycle_Time_Days :: pyfloat
  Bug_Ratio_Pct :: pyfloat
  Workload_Score :: pyfloat
  Issues_of_type :: "(string \<times> int) list"

record csv_summary =
  Total_Tasks_Completed :: "int \<times> int \<times> pyfloat"
  Total_Story_Points_Completed :: "pyfloat \<times> pyfloat \<times> pyfloat"
  Team_Velocity :: pyfloat
  Average_Cycle_Time :: pyfloat
  Average_Story_Points_per_Task :: pyfloat
  Bug_to_Story_Ratio :: pyfloat
  Min_Story_Points :: pyfloat
  Max_Story_Points :: pyfloat
  Avg_Story_Points :: pyfloat
  Workload_Std_Deviation :: pyfloat

record csv_file =
  rows :: "csv_row list"
  summary :: csv_summary

text \<open>\<^verbatim>\<open>round(100.0 * a / b, 1)\<close> for integers \<open>a\<close>, \<open>b\<close> and for floats.\<close>

definition pct_of_ints :: "int \<Rightarrow> int \<Rightarrow> pyerr + pyfloat" where
  "pct_of_ints a b =
     and_then (float_of_int a) (\<lambda>fa.
     and_then (float_of_int b) (\<lambda>fb.
     and_then (fdiv (fmul (Fin 100) fa) fb) (\<lambda>q. Inr (round1 q))))"

definition pct_of_floats :: "pyfloat \<Rightarrow> pyfloat \<Rightarrow> pyerr + pyfloat" where
  "pct_of_floats a b = and_then (fdiv (fmul (Fin 100) a) b) (\<lambda>q. Inr (round1 q))"

text \<open>\<^verbatim>\<open>round(x / n, 1)\<close> for a float \<open>x\<close> and an integer \<open>n\<close>.\<close>

definition float_per_int :: "pyfloat \<Rightarrow> int \<Rightarrow> pyerr + pyfloat" where
  "float_per_int x n =
     and_then (float_of_int n) (\<lambda>fn. and_then (fdiv x fn) (\<lambda>q. Inr (round1 q)))"

text \<open>\<^verbatim>\<open>round(statistics.mean(xs), 1) if xs else 0.0\<close>.\<close>

definition rounded_mean :: "pyenv \<Rightarrow> pyfloat list \<Rightarrow> pyerr + pyfloat" where
  "rounded_mean env xs =
     (if xs = [] then Inr (Fin 0)
      else and_then (statistics_mean env xs) (\<lambda>a. Inr (round1 a)))"

definition completion_pct_issues :: "int \<Rightarrow> int \<Rightarrow> pyerr + pyfloat" where
  "completion_pct_issues completed_n total_n =
     (if 0 < total_n then pct_of_ints completed_n total_n else Inr (Fin 0))"

definition completion_pct_story_points :: "pyfloat \<Rightarrow> pyfloat \<Rightarrow> pyerr + pyfloat" where
  "completion_pct_story_points completed_sp total_sp =
     (if fgt0 total_sp then pct_of_floats completed_sp total_sp else Inr (Fin 0))"

definition assignee_row :: "pyenv \<Rightarrow> string list \<Rightarrow> string \<Rightarrow> bucket \<Rightarrow> pyerr + csv_row" where
  "assignee_row env all_issue_types assignee m =
     and_then (if 0 < total_issues m
               then float_per_int (total_story_points m) (total_issues m)
               else Inr (Fin 0)) (\<lambda>avg_sp_per_issue.
     and_then (rounded_mean env (cycle_times m)) (\<lambda>avg_cycle_time.
     and_then (if 0 < total_issues m then pct_of_ints (bug_count m) (total_issues m)
               else Inr (Fin 0)) (\<lambda>bug_ratio.
     and_then (float_per_int (total_story_points m) (max 1 (total_issues m))) (\<lambda>workload_score.
     and_then (completion_pct_issues (completed_issues m) (total_issues m)) (\<lambda>pct_issues.
     and_then (completion_pct_story_points (completed_story_points m) (total_story_points m))
       (\<lambda>pct_sp.
       Inr \<lparr>Assignee = assignee,
            Total_Issues = total_issues m,
            Completed_Issues = completed_issues m,
            Completion_Pct_Issues = pct_issues,
            Total_Story_Points = total_story_points m,
            Completed_Story_Points = completed_story_points m,
            Completion_Pct_Story_Points = pct_sp,
            Avg_Story_Points_per_Issue = avg_sp_per_issue,
            Avg_Cycle_Time_Days = avg_cycle_time,
            Bug_Ratio_Pct = bug_ratio,
            Workload_Score = workload_score,
            Issues_of_type =
              map (\<lambda>t. (t, case map_of (issue_type_counts m) t of None \<Rightarrow> 0 | Some n \<Rightarrow> n))
                all_issue_types\<rparr>))))))"

text \<open>\<^verbatim>\<open>sorted(metrics.items(), key=lambda x: x[0].lower())\<close>: every key receives
  \<^verbatim>\<open>.lower()\<close> before the first row is written; the sort is stable.\<close>

fun lowered_items :: "(json \<times> bucket) list \<Rightarrow> pyerr + (string \<times> string \<times> bucket) list" where
  "lowered_items [] = Inr []"
| "lowered_items ((k, m) # rest) =
     (case k of
        JStr name \<Rightarrow> and_then (lowered_items rest) (\<lambda>r. Inr ((lower name, name, m) # r))
      | _ \<Rightarrow> Inl AttributeError)"

definition sorted_items :: "(json \<times> bucket) list \<Rightarrow> pyerr + (string \<times> bucket) list" where
  "sorted_items metrics =
     and_then (lowered_items metrics) (\<lambda>items. Inr (map snd (sort_key fst items)))"

fun write_rows :: "pyenv \<Rightarrow> string list \<Rightarrow> (string \<times> bucket) list \<Rightarrow> pyerr + csv_row list" where
  "write_rows env types [] = Inr []"
| "write_rows env types ((assignee, m) # rest) =
     and_then (assignee_row env types assignee m) (\<lambda>row.
     and_then (write_rows env types rest) (\<lambda>rs. Inr (row # rs)))"

text \<open>\<^verbatim>\<open>min\<close> and \<^verbatim>\<open>max\<close> of a non-empty list of floats keep the first element unless a
  later one compares smaller (larger).\<close>

definition float_list_min :: "pyfloat list \<Rightarrow> pyfloat" where
  "float_list_min xs = foldl (\<lambda>best x. if flt x best then x else best) (hd xs) (tl xs)"

definition float_list_max :: "pyfloat list \<Rightarrow> pyfloat" where
  "float_list_max xs = foldl (\<lambda>best x. if flt best x then x else best) (hd xs) (tl xs)"

definition write_summary :: "pyenv \<Rightarrow> totals \<Rightarrow> pyerr + csv_summary" where
  "write_summary env sprint_totals =
     and_then (completion_pct_issues (sum_completed_issues sprint_totals)
                 (sum_total_issues sprint_totals)) (\<lambda>sprint_completion_issues.
     and_then (completion_pct_story_points (sum_completed_story_points sprint_totals)
                 (sum_total_story_points sprint_totals)) (\<lambda>sprint_completion_sp.
     and_then (rounded_mean env (all_cycle_times sprint_totals)) (\<lambda>avg_cycle_time_sprint.
     and_then (rounded_mean env (all_story_points sprint_totals)) (\<lambda>avg_sp_per_task.
     and_then (rounded_mean env (assignee_story_points sprint_totals)) (\<lambda>avg_workload.
     and_then (if 1 < length (assignee_story_points sprint_totals)
               then and_then (statistics_stdev env (assignee_story_points sprint_totals))
                      (\<lambda>sd. Inr (round1 sd))
               else Inr (Fin 0)) (\<lambda>workload_std.
     and_then (int_truediv (total_bugs sprint_totals) (max 1 (total_stories sprint_totals)))
       (\<lambda>ratio.
       Inr \<lparr>Total_Tasks_Completed =
              (sum_completed_issues sprint_totals, sum_total_issues sprint_totals,
               sprint_completion_issues),
            Total_Story_Points_Completed =
              (sum_completed_story_points sprint_totals,
               sum_total_story_points sprint_totals, sprint_completion_sp),
            Team_Velocity = sum_completed_story_points sprint_totals,
            Average_Cycle_Time = avg_cycle_time_sprint,
            Average_Story_Points_per_Task = avg_sp_per_task,
            Bug_to_Story_Ratio = round1 (fmul ratio (Fin 100)),
            Min_Story_Points =
              (if assignee_story_points sprint_totals = [] then Fin 0
               else float_list_min (assignee_story_points sprint_totals)),
            Max_Story_Points =
              (if assignee_story_points sprint_totals = [] then Fin 0
               else float_list_max (assignee_story_points sprint_totals)),
            Avg_Story_Points = avg_workload,
            Workload_Std_Deviation = workload_std\<rparr>)))))))"

definition all_issue_types :: "(json \<times> bucket) list \<Rightarrow> string list" where
  "all_issue_types metrics =
     sort (remdups (concat (map (\<lambda>(k, m). map fst (issue_type_counts m)) metrics)))"

definition write_csv :: "pyenv \<Rightarrow> (json \<times> bucket) list \<Rightarrow> pyerr + csv_file" where
  "write_csv env metrics =
     and_then (sorted_items metrics) (\<lambda>items.
     and_then (write_rows env (all_issue_types metrics) items) (\<lambda>rs.
     and_then (write_summary env (compute_sprint_totals metrics)) (\<lambda>sm.
       Inr \<lparr>rows = rs, summary = sm\<rparr>)))"

subsection \<open>fetch_issues_for_sprint\<close>

text \<open>\<^verbatim>\<open>for x in v\<close> / \<^verbatim>\<open>list.extend(v)\<close>: the elements of a list, the characters of a
  string, the keys of a dictionary.\<close>

definition py_iter :: "json \<Rightarrow> pyerr + json list" where
  "py_iter v =
     (case v of
        JList l \<Rightarrow> Inr l
      | JStr s \<Rightarrow> Inr (map (\<lambda>c. JStr [c]) s)
      | JDict d \<Rightarrow> Inr (map (\<lambda>(k, _). JStr k) d)
      | _ \<Rightarrow> Inl TypeError)"

text \<open>\<^verbatim>\<open>n >= v\<close> for an integer \<open>n\<close>.\<close>

definition int_ge :: "int \<Rightarrow> json \<Rightarrow> pyerr + bool" where
  "int_ge n v =
     (case v of
        JBool b \<Rightarrow> Inr ((if b then 1 else 0) \<le> n)
      | JInt t \<Rightarrow> Inr (t \<le> n)
      | JFloat f \<Rightarrow> Inr (case f of Fin r \<Rightarrow> r \<le> of_int n | NInf \<Rightarrow> True | _ \<Rightarrow> False)
      | _ \<Rightarrow> Inl TypeError)"

text \<open>
  The server is the function \<open>get\<close> from \<^verbatim>\<open>startAt\<close> and \<^verbatim>\<open>maxResults\<close> to the decoded
  body, or to the exception of \<^verbatim>\<open>requests.get\<close>, \<^verbatim>\<open>raise_for_status\<close> or \<^verbatim>\<open>json\<close>.
  Every request of one run has its own \<^verbatim>\<open>startAt\<close>, so a function covers a server
  whose answers change over time. The loop need not end: \<open>None\<close> is a run that never
  returns.
\<close>

partial_function (option) fetch_loop ::
  "(int \<Rightarrow> int \<Rightarrow> pyerr + json) \<Rightarrow> json list \<Rightarrow> int \<Rightarrow> (pyerr + json list) option" where
  "fetch_loop get issues start_at =
     (case get start_at 100 of
        Inl e \<Rightarrow> Some (Inl e)
      | Inr data \<Rightarrow>
          (case and_then (dict_get data ''issues'' (JList [])) py_iter of
             Inl e \<Rightarrow> Some (Inl e)
           | Inr page \<Rightarrow>
               (case and_then (dict_get data ''total'' (JInt 0)) (int_ge (start_at + 100)) of
                  Inl e \<Rightarrow> Some (Inl e)
                | Inr stop \<Rightarrow>
                    if stop then Some (Inr (issues @ page))
                    else fetch_loop get (issues @ page) (start_at + 100))))"

definition fetch_issues_for_sprint ::
  "(int \<Rightarrow> int \<Rightarrow> pyerr + json) \<Rightarrow> (pyerr + json list) option" where
  "fetch_issues_for_sprint get = fetch_loop get [] 0"

section \<open>Reading the loop of compute_metrics\<close>

text \<open>
  What the five extractors return for an issue on which none of them raises, and what the loop
  then does with the issue: these name the parts of the loop body, for the statements below.
\<close>

definition assignee_of :: "json \<Rightarrow> json" where
  "assignee_of issue = (case get_assignee_name issue of Inr a \<Rightarrow> a | Inl _ \<Rightarrow> JNull)"

definition status_of :: "json \<Rightarrow> string" where
  "status_of issue = (case get_status_category issue of Inr s \<Rightarrow> s | Inl _ \<Rightarrow> [])"

definition issue_type_of :: "json \<Rightarrow> string" where
  "issue_type_of issue = (case get_issue_type issue of Inr (JStr t) \<Rightarrow> t | _ \<Rightarrow> [])"

definition story_points_of :: "pyenv \<Rightarrow> json \<Rightarrow> pyfloat" where
  "story_points_of env issue =
     (case get_story_points env issue of Inr f \<Rightarrow> f | Inl _ \<Rightarrow> Fin 0)"

definition cycle_time_of :: "pyenv \<Rightarrow> json \<Rightarrow> pyfloat" where
  "cycle_time_of env issue =
     (case get_cycle_time_days env issue of Inr f \<Rightarrow> f | Inl _ \<Rightarrow> Fin 0)"

definition is_done :: "json \<Rightarrow> bool" where
  "is_done issue = (status_of issue \<in> DONE_STATUS_CATEGORIES)"

text \<open>The issue belongs to the bucket with key \<open>k\<close>.\<close>

definition has_assignee :: "json \<Rightarrow> json \<Rightarrow> bool" where
  "has_assignee k issue = same_key (assignee_of issue) k"

text \<open>The loop body does not raise on the issue.\<close>

definition issue_ok :: "pyenv \<Rightarrow> json \<Rightarrow> bool" where
  "issue_ok env issue =
     (\<exists>a s t sp ct. get_assignee_name issue = Inr a \<and> get_status_category issue = Inr s \<and>
        get_issue_type issue = Inr (JStr t) \<and> get_story_points env issue = Inr sp \<and>
        get_cycle_time_days env issue = Inr ct \<and> hashable a)"

definition add_of :: "pyenv \<Rightarrow> json \<Rightarrow> bucket \<Rightarrow> bucket" where
  "add_of env issue =
     add_issue (status_of issue) (issue_type_of issue) (story_points_of env issue)
       (cycle_time_of env issue)"

definition place :: "pyenv \<Rightarrow> (json \<times> bucket) list \<Rightarrow> json \<Rightarrow> (json \<times> bucket) list" where
  "place env metrics issue = update_bucket (assignee_of issue) (add_of env issue) metrics"

text \<open>\<^verbatim>\<open>metrics[k]\<close> read without inserting: the bucket of \<open>k\<close>, or a fresh one.\<close>

definition bucket_at :: "(json \<times> bucket) list \<Rightarrow> json \<Rightarrow> bucket" where
  "bucket_at metrics k =
     (case find (\<lambda>(k', m). same_key k' k) metrics of
        Some (k', m) \<Rightarrow> m
      | None \<Rightarrow> new_bucket)"

text \<open>The bucket a list of issues of one assignee builds.\<close>

definition bucket_of :: "pyenv \<Rightarrow> json list \<Rightarrow> bucket" where
  "bucket_of env xs = foldl (\<lambda>m i. add_of env i m) new_bucket xs"

text \<open>\<^verbatim>\<open>sum(xs)\<close> over floats, left to right, and the exact sum of their values.\<close>

definition py_sum :: "pyfloat list \<Rightarrow> pyfloat" where
  "py_sum xs = foldl fadd (Fin 0) xs"

definition float_value :: "pyfloat \<Rightarrow> rat" where
  "float_value x = (case x of Fin r \<Rightarrow> r | _ \<Rightarrow> 0)"

section \<open>Example data\<close>

text \<open>
  An environment for the examples: the field the Jira instance uses, and the library
  functions on the arguments the examples pass them (\<^verbatim>\<open>fromisoformat\<close> on three
  timestamps, the mean of finite floats, the standard deviation of equal values).
\<close>

definition example_fromisoformat :: "string \<Rightarrow> pydatetime option" where
  "example_fromisoformat s =
     (if s = ''2024-01-01T00:00:00+00:00''
      then Some \<lparr>wall_us = 63839664000000000, utcoffset_us = Some 0\<rparr>
      else if s = ''2024-01-03T12:00:00+00:00''
      then Some \<lparr>wall_us = 63839880000000000, utcoffset_us = Some 0\<rparr>
      else if s = ''2024-01-11T00:00:00''
      then Some \<lparr>wall_us = 63840528000000000, utcoffset_us = None\<rparr>
      else None)"

definition example_mean :: "pyfloat list \<Rightarrow> pyerr + pyfloat" where
  "example_mean xs =
     (if xs = [] then Inl StatisticsError
      else Inr (rnd (sum_list (map float_value xs) / of_nat (length xs))))"

definition example_stdev :: "pyfloat list \<Rightarrow> pyerr + pyfloat" where
  "example_stdev xs =
     (if length xs < 2 \<or> (\<exists>x \<in> set xs. x \<noteq> hd xs) then Inl StatisticsError
      else Inr (Fin 0))"

definition example_env :: pyenv where
  "example_env =
     \<lparr>STORY_POINTS_FIELD = ''customfield_10016'',
      float_of_str = (\<lambda>s. if s = ''8'' then Some (Fin 8) else None),
      fromisoformat = example_fromisoformat,
      statistics_mean = example_mean,
      statistics_stdev = example_stdev\<rparr>"

definition example_fields ::
  "json \<Rightarrow> string \<Rightarrow> string \<Rightarrow> json \<Rightarrow> json \<Rightarrow> json \<Rightarrow> (string \<times> json) list" where
  "example_fields assignee status_key type_name story_points created resolved =
     [(''assignee'', assignee),
      (''status'', JDict [(''name'', JStr ''Status''),
                          (''statusCategory'', JDict [(''key'', JStr status_key)])]),
      (''issuetype'', JDict [(''name'', JStr type_name)]),
      (''customfield_10016'', story_points),
      (''created'', created),
      (''resolutiondate'', resolved)]"

definition issue_with :: "(string \<times> json) list \<Rightarrow> json" where
  "issue_with fs = JDict [(''key'', JStr ''KPI-1''), (''fields'', JDict fs)]"

definition example_issue :: "json \<Rightarrow> string \<Rightarrow> string \<Rightarrow> json \<Rightarrow> json \<Rightarrow> json \<Rightarrow> json" where
  "example_issue assignee status_key type_name story_points created resolved =
     issue_with (example_fields assignee status_key type_name story_points created resolved)"

definition user :: "string \<Rightarrow> json" where
  "user name = JDict [(''accountId'', JStr ''5b10''), (''displayName'', JStr name)]"

text \<open>A sprint of four issues: two of Ada (both done, one with a cycle time of 2.5 days),
  one of Bob (not started), and one done issue of 8 points that nobody is assigned to.\<close>

definition team_issues :: "json list" where
  "team_issues =
     [example_issue (user ''Ada'') ''done'' ''Bug'' (JInt 3)
        (JStr ''2024-01-01T00:00:00Z'') (JStr ''2024-01-03T12:00:00Z''),
      example_issue (user ''Bob'') ''new'' ''Story'' (JInt 5) (JStr ''2024-01-01T00:00:00Z'') JNull,
      example_issue (user ''Ada'') ''done'' ''Task'' (JFloat (Fin 2)) JNull JNull,
      example_issue JNull ''done'' ''Story'' (JInt 8) JNull JNull]"

definition team_metrics :: "(json \<times> bucket) list" where
  "team_metrics =
     [(JStr ''Ada'',
       \<lparr>total_issues = 2, completed_issues = 2,
        total_story_points = Fin 5, completed_story_points = Fin 5,
        issue_type_counts = [(''Bug'', 1), (''Task'', 1)], bug_count = 1, story_count = 0,
        cycle_times = [Fin (5 / 2)], story_points_list = [Fin 3, Fin 2]\<rparr>),
      (JStr ''Bob'',
       \<lparr>total_issues = 1, completed_issues = 0,
        total_story_points = Fin 5, completed_story_points = Fin 0,
        issue_type_counts = [(''Story'', 1)], bug_count = 0, story_count = 1,
        cycle_times = [], story_points_list = [Fin 5]\<rparr>),
      (JStr ''Unassigned'',
       \<lparr>total_issues = 1, completed_issues = 1,
        total_story_points = Fin 8, completed_story_points = Fin 8,
        issue_type_counts = [(''Story'', 1)], bug_count = 0, story_count = 1,
        cycle_times = [], story_points_list = [Fin 8]\<rparr>)]"

text \<open>The doubles nearest to 0.1, 0.2 and 0.3, and a sprint whose story points are these
  decimals: 0.3 for Bob, then 0.2 and 0.1 for Ada.\<close>

definition double_0_1 :: pyfloat where
  "double_0_1 = Fin (3602879701896397 / 36028797018963968)"

definition double_0_2 :: pyfloat where
  "double_0_2 = Fin (3602879701896397 / 18014398509481984)"

definition double_0_3 :: pyfloat where
  "double_0_3 = Fin (5404319552844595 / 18014398509481984)"

definition decimal_issues :: "json list" where
  "decimal_issues =
     [example_issue (user ''Bob'') ''new'' ''Story'' (JFloat double_0_3) JNull JNull,
      example_issue (user ''Ada'') ''new'' ''Story'' (JFloat double_0_2) JNull JNull,
      example_issue (user ''Ada'') ''new'' ''Story'' (JFloat double_0_1) JNull JNull]"

definition decimal_metrics :: "(json \<times> bucket) list" where
  "decimal_metrics =
     [(JStr ''Bob'',
       \<lparr>total_issues = 1, completed_issues = 0,
        total_story_points = double_0_3, completed_story_points = Fin 0,
        issue_type_counts = [(''Story'', 1)], bug_count = 0, story_count = 1,
        cycle_times = [], story_points_list = [double_0_3]\<rparr>),
      (JStr ''Ada'',
       \<lparr>total_issues = 2, completed_issues = 0,
        total_story_points = Fin (1351079888211149 / 4503599627370496),
        completed_story_points = Fin 0,
        issue_type_counts = [(''Story'', 2)], bug_count = 0, story_count = 2,
        cycle_times = [], story_points_list = [double_0_2, double_0_1]\<rparr>)]"

text \<open>The buckets that \<^verbatim>\<open>compute_sprint_totals\<close> does not skip.\<close>

definition assigned :: "(json \<times> bucket) list \<Rightarrow> (json \<times> bucket) list" where
  "assigned metrics = filter (\<lambda>(k, m). k \<noteq> JStr ''Unassigned'') metrics"

text \<open>The file \<^verbatim>\<open>write_csv\<close> writes for the four issues of the team.\<close>

definition team_csv :: csv_file where
  "team_csv =
     \<lparr>rows =
        [\<lparr>Assignee = ''Ada'', Total_Issues = 2, Completed_Issues = 2,
          Completion_Pct_Issues = Fin 100,
          Total_Story_Points = Fin 5, Completed_Story_Points = Fin 5,
          Completion_Pct_Story_Points = Fin 100,
          Avg_Story_Points_per_Issue = Fin (5 / 2), Avg_Cycle_Time_Days = Fin (5 / 2),
          Bug_Ratio_Pct = Fin 50, Workload_Score = Fin (5 / 2),
          Issues_of_type = [(''Bug'', 1), (''Story'', 0), (''Task'', 1)]\<rparr>,
         \<lparr>Assignee = ''Bob'', Total_Issues = 1, Completed_Issues = 0,
          Completion_Pct_Issues = Fin 0,
          Total_Story_Points = Fin 5, Completed_Story_Points = Fin 0,
          Completion_Pct_Story_Points = Fin 0,
          Avg_Story_Points_per_Issue = Fin 5, Avg_Cycle_Time_Days = Fin 0,
          Bug_Ratio_Pct = Fin 0, Workload_Score = Fin 5,
          Issues_of_type = [(''Bug'', 0), (''Story'', 1), (''Task'', 0)]\<rparr>,
         \<lparr>Assignee = ''Unassigned'', Total_Issues = 1, Completed_Issues = 1,
          Completion_Pct_Issues = Fin 100,
          Total_Story_Points = Fin 8, Completed_Story_Points = Fin 8,
          Completion_Pct_Story_Points = Fin 100,
          Avg_Story_Points_per_Issue = Fin 8, Avg_Cycle_Time_Days = Fin 0,
          Bug_Ratio_Pct = Fin 0, Workload_Score = Fin 8,
          Issues_of_type = [(''Bug'', 0), (''Story'', 1), (''Task'', 0)]\<rparr>],
      summary =
        \<lparr>Total_Tasks_Completed = (2, 3, Fin (4693595236650189 / 70368744177664)),
         Total_Story_Points_Completed = (Fin 5, Fin 10, Fin 50),
         Team_Velocity = Fin 5,
         Average_Cycle_Time = Fin (5 / 2),
         Average_Story_Points_per_Task = Fin (3715469692580659 / 1125899906842624),
         Bug_to_Story_Ratio = Fin 100,
         Min_Story_Points = Fin 5, Max_Story_Points = Fin 5, Avg_Story_Points = Fin 5,
         Workload_Std_Deviation = Fin 0\<rparr>\<rparr>"

section \<open>Well-typed issues\<close>

text \<open>
  The shape the Jira schema gives the fields that the extractors read: \<^verbatim>\<open>assignee\<close>,
  \<^verbatim>\<open>status\<close>, \<^verbatim>\<open>statusCategory\<close> and \<^verbatim>\<open>issuetype\<close> are absent, null or objects;
  \<^verbatim>\<open>displayName\<close>, \<^verbatim>\<open>emailAddress\<close> and the status category's \<^verbatim>\<open>key\<close> are strings where
  they are present (the names may also be null).
\<close>

fun opt_string :: "json option \<Rightarrow> bool" where
  "opt_string None = True"
| "opt_string (Some JNull) = True"
| "opt_string (Some (JStr s)) = True"
| "opt_string _ = False"

definition assignee_typed :: "(string \<times> json) list \<Rightarrow> bool" where
  "assignee_typed f =
     (case map_of f ''assignee'' of
        None \<Rightarrow> True
      | Some JNull \<Rightarrow> True
      | Some (JDict a) \<Rightarrow> opt_string (map_of a ''displayName'') \<and> opt_string (map_of a ''emailAddress'')
      | _ \<Rightarrow> False)"

definition category_typed :: "json option \<Rightarrow> bool" where
  "category_typed v =
     (case v of
        None \<Rightarrow> True
      | Some JNull \<Rightarrow> True
      | Some (JDict c) \<Rightarrow> (case map_of c ''key'' of None \<Rightarrow> True | Some (JStr s) \<Rightarrow> True | _ \<Rightarrow> False)
      | _ \<Rightarrow> False)"

definition status_typed :: "(string \<times> json) list \<Rightarrow> bool" where
  "status_typed f =
     (case map_of f ''status'' of
        None \<Rightarrow> True
      | Some JNull \<Rightarrow> True
      | Some (JDict s) \<Rightarrow> category_typed (map_of s ''statusCategory'')
      | _ \<Rightarrow> False)"

definition issuetype_typed :: "(string \<times> json) list \<Rightarrow> bool" where
  "issuetype_typed f =
     (case map_of f ''issuetype'' of
        None \<Rightarrow> True
      | Some JNull \<Rightarrow> True
      | Some (JDict t) \<Rightarrow> True
      | _ \<Rightarrow> False)"

text \<open>An integer story-points value is within the range of doubles: below
  \<open>2 ^ 1024 - 2 ^ 970\<close> in magnitude, the first integer that rounds to \<open>2 ^ 1024\<close>.\<close>

definition story_points_in_range :: "pyenv \<Rightarrow> (string \<times> json) list \<Rightarrow> bool" where
  "story_points_in_range env f =
     (case map_of f (STORY_POINTS_FIELD env) of
        Some (JInt n) \<Rightarrow> \<bar>n\<bar> < 2 ^ 1024 - 2 ^ 970
      | _ \<Rightarrow> True)"

text \<open>\<^verbatim>\<open>float(v)\<close> raises \<^verbatim>\<open>TypeError\<close> or \<^verbatim>\<open>ValueError\<close>.\<close>

definition float_rejects :: "pyenv \<Rightarrow> json \<Rightarrow> bool" where
  "float_rejects env v =
     (case v of
        JNull \<Rightarrow> True
      | JStr s \<Rightarrow> float_of_str env s = None
      | JList l \<Rightarrow> True
      | JDict d \<Rightarrow> True
      | _ \<Rightarrow> False)"

text \<open>A \<^verbatim>\<open>datetime\<close> lies between the years 1 and 9999, its offset within a day; an
  environment is faithful to Python when \<^verbatim>\<open>fromisoformat\<close> returns such values only.\<close>

definition valid_datetime :: "pydatetime \<Rightarrow> bool" where
  "valid_datetime dt =
     (0 \<le> wall_us dt \<and> wall_us dt < 315537897600000000 \<and>
      (case utcoffset_us dt of None \<Rightarrow> True | Some off \<Rightarrow> \<bar>off\<bar> < 86400000000))"

definition valid_datetimes :: "pyenv \<Rightarrow> bool" where
  "valid_datetimes env = (\<forall>s dt. fromisoformat env s = Some dt \<longrightarrow> valid_datetime dt)"

text \<open>The timestamp a field holds: the field is present, a non-empty string, and
  \<^verbatim>\<open>fromisoformat\<close> parses it (after \<^verbatim>\<open>Z\<close> became \<^verbatim>\<open>+00:00\<close>).\<close>

definition timestamp_of :: "pyenv \<Rightarrow> (string \<times> json) list \<Rightarrow> string \<Rightarrow> pydatetime option" where
  "timestamp_of env f key =
     (case map_of f key of
        Some (JStr s) \<Rightarrow> if s = [] then None else fromisoformat env (replace_Z s)
      | _ \<Rightarrow> None)"

text \<open>The instant of a datetime in microseconds (UTC for an aware one), and an elapsed time
  in microseconds as days: the seconds as a double, divided by 86400.\<close>

definition instant_us :: "pydatetime \<Rightarrow> int" where
  "instant_us dt = wall_us dt - (case utcoffset_us dt of None \<Rightarrow> 0 | Some off \<Rightarrow> off)"

definition aware :: "pydatetime \<Rightarrow> bool" where
  "aware dt = (utcoffset_us dt \<noteq> None)"

definition elapsed_days :: "int \<Rightarrow> pyfloat" where
  "elapsed_days delta =
     (case rnd (of_int delta / 10 ^ 6) of
        Fin secs \<Rightarrow> rnd (secs / 86400)
      | _ \<Rightarrow> NaN)"

text \<open>The fields of Ada's bug, of an issue whose assignee is a plain string, of one whose
  story points are a 401-digit integer, and of one created with a UTC offset and resolved
  without.\<close>

definition ada_bug_fields :: "(string \<times> json) list" where
  "ada_bug_fields =
     example_fields (user ''Ada'') ''done'' ''Bug'' (JInt 3)
       (JStr ''2024-01-01T00:00:00Z'') (JStr ''2024-01-03T12:00:00Z'')"

definition string_assignee_fields :: "(string \<times> json) list" where
  "string_assignee_fields = example_fields (JStr ''bob'') ''done'' ''Bug'' (JInt 3) JNull JNull"

definition huge_points_fields :: "(string \<times> json) list" where
  "huge_points_fields =
     example_fields (user ''Ada'') ''done'' ''Bug'' (JInt (10 ^ 400)) JNull JNull"

definition mixed_zone_fields :: "(string \<times> json) list" where
  "mixed_zone_fields =
     example_fields (user ''Ada'') ''done'' ''Bug'' (JInt 3)
       (JStr ''2024-01-01T00:00:00Z'') (JStr ''2024-01-11T00:00:00'')"

text \<open>A server that holds the issues \<open>all\<close> of a sprint and answers a request with the page
  it asks for.\<close>

definition jira_page :: "json list \<Rightarrow> int \<Rightarrow> int \<Rightarrow> json" where
  "jira_page all start_at max_results =
     JDict [(''maxResults'', JInt max_results),
            (''startAt'', JInt start_at),
            (''total'', JInt (int (length all))),
            (''issues'', JList (take (nat max_results) (drop (nat start_at) all)))]"

text \<open>The server answers every request for a page of 100 with the next (up to) 100 issues of
  \<open>all\<close> and with their number as \<^verbatim>\<open>total\<close>.\<close>

definition serves_pages :: "(int \<Rightarrow> int \<Rightarrow> pyerr + json) \<Rightarrow> json list \<Rightarrow> bool" where
  "serves_pages get all =
     (\<forall>s. 0 \<le> s \<longrightarrow>
        (\<exists>data. get s 100 = Inr data
           \<and> dict_get data ''issues'' (JList []) = Inr (JList (take 100 (drop (nat s) all)))
           \<and> dict_get data ''total'' (JInt 0) = Inr (JInt (int (length all)))))"

text \<open>A server that returns at most \<open>cap\<close> issues per page, whatever \<^verbatim>\<open>maxResults\<close> asks
  for.\<close>

definition capped_page :: "nat \<Rightarrow> json list \<Rightarrow> int \<Rightarrow> int \<Rightarrow> json" where
  "capped_page cap all start_at max_results =
     JDict [(''maxResults'', JInt (min (int cap) max_results)),
            (''startAt'', JInt start_at),
            (''total'', JInt (int (length all))),
            (''issues'', JList (take (min cap (nat max_results)) (drop (nat start_at) all)))]"

text \<open>A sprint of \<open>n\<close> issues, numbered from 0.\<close>

definition numbered_issues :: "nat \<Rightarrow> nat \<Rightarrow> json list" where
  "numbered_issues i j = map (\<lambda>n. JDict [(''id'', JInt (int n))]) [i..<j]"

section \<open>detect_story_points_field.py\<close>


text \<open>\<^verbatim>\<open>try: body except Exception: return fallback\<close>.\<close>

definition catch :: "pyerr + 'a \<Rightarrow> 'a \<Rightarrow> pyerr + 'a" where
  "catch body fallback =
     (case body of
        Inl e \<Rightarrow> if is_Exception e then Inr fallback else Inl e
      | Inr v \<Rightarrow> Inr v)"








subsection \<open>The sample issue\<close>






subsection \<open>The field metadata\<close>
















subsection \<open>The ranking of the recommendation\<close>








subsection \<open>Example data of the detector\<close>








section \<open>Lemmas\<close>

subsection \<open>Results and rounding\<close>

lemma and_then_Inl [simp]: "and_then (Inl e) f = Inl e"
  by (simp add: and_then_def)

lemma and_then_Inr [simp]: "and_then (Inr v) f = f v"
  by (simp add: and_then_def)

lemma and_then_weak_cong: "r = r' \<Longrightarrow> and_then r f = and_then r' f"
  by simp

lemma and_then_eq_Inr: "and_then r f = Inr y \<longleftrightarrow> (\<exists>v. r = Inr v \<and> f v = Inr y)"
  by (cases r) simp_all

lemma pow2_pos: "0 < pow2 k"
  by (simp add: pow2_def)

lemma pow2_Suc: "pow2 (k + 1) = 2 * pow2 k"
proof (cases "0 \<le> k")
  case True
  then show ?thesis by (simp add: pow2_def nat_add_distrib)
next
  case False
  then have k: "k < 0" by simp
  show ?thesis
  proof (cases "k = - 1")
    case True
    then show ?thesis by (simp add: pow2_def)
  next
    case False
    with k have "nat (- k) = Suc (nat (- (k + 1)))" by simp
    then show ?thesis using k False by (simp add: pow2_def)
  qed
qed

lemma pow2_pred: "pow2 (k - 1) = pow2 k / 2"
  using pow2_Suc [of "k - 1"] by simp

lemma pow2_mono: "a \<le> b \<Longrightarrow> pow2 a \<le> pow2 b"
proof -
  assume "a \<le> b"
  then obtain n where b: "b = a + int n" by (metis zle_iff_zadd)
  have "pow2 a \<le> pow2 (a + int n)"
  proof (induction n)
    case 0
    show ?case by simp
  next
    case (Suc n)
    have "a + int (Suc n) = (a + int n) + 1" by simp
    then have "pow2 (a + int (Suc n)) = 2 * pow2 (a + int n)"
      by (simp only: pow2_Suc)
    then show ?case using Suc pow2_pos [of "a + int n"] by simp
  qed
  then show ?thesis by (simp add: b)
qed

lemma ilog2_bounds: "0 < x \<Longrightarrow> pow2 (ilog2 x) \<le> x \<and> x < 2 * pow2 (ilog2 x)"
proof (induction x rule: ilog2.induct)
  case (1 x)
  show ?case
  proof (cases "2 \<le> x")
    case True
    then have ih: "pow2 (ilog2 (x / 2)) \<le> x / 2 \<and> x / 2 < 2 * pow2 (ilog2 (x / 2))"
      using 1 by simp
    have e: "ilog2 x = ilog2 (x / 2) + 1" using True by (subst ilog2.simps) simp
    show ?thesis using ih by (simp add: e pow2_Suc)
  next
    case False
    show ?thesis
    proof (cases "x < 1")
      case True
      then have ih: "pow2 (ilog2 (x * 2)) \<le> x * 2 \<and> x * 2 < 2 * pow2 (ilog2 (x * 2))"
        using 1 False by simp
      have e: "ilog2 x = ilog2 (x * 2) - 1" using True False "1.prems" by (subst ilog2.simps) simp
      show ?thesis using ih by (simp add: e pow2_pred)
    next
      case nlt: False
      have e: "ilog2 x = 0" using False nlt "1.prems" by (subst ilog2.simps) simp
      show ?thesis using False nlt by (simp add: e pow2_def)
    qed
  qed
qed

lemma round_half_even_floor: "\<lfloor>z\<rfloor> \<le> round_half_even z"
  by (simp add: round_half_even_def half_even_def)

lemma round_half_even_err: "\<bar>of_int (round_half_even z) - z\<bar> \<le> 1 / 2"
proof -
  define f where "f = \<lfloor>z\<rfloor>"
  have a: "of_int f \<le> z" "z < of_int f + 1" unfolding f_def by linarith+
  show ?thesis unfolding round_half_even_def half_even_def f_def [symmetric]
    using a by (auto simp: abs_if)
qed

lemma rnd_pos_nonzero: assumes "1 \<le> x" shows "rnd x \<noteq> Fin 0"
proof -
  have x0: "0 < \<bar>x\<bar>" "\<bar>x\<bar> = x" using assms by simp_all
  define e where "e = ilog2 \<bar>x\<bar>"
  have b: "pow2 e \<le> x" "x < 2 * pow2 e" using ilog2_bounds [OF x0(1)] x0(2) by (simp_all add: e_def)
  have e0: "0 \<le> e"
  proof (rule ccontr)
    assume "\<not> 0 \<le> e"
    then have "e + 1 \<le> 0" by simp
    then have "pow2 (e + 1) \<le> pow2 0" by (rule pow2_mono)
    moreover have "pow2 0 = 1" by (simp add: pow2_def)
    ultimately have "2 * pow2 e \<le> 1" by (simp add: pow2_Suc)
    then show False using b(2) assms by linarith
  qed
  define q where "q = ulp_of x"
  have q: "q = pow2 (e - 52)" using e0 by (simp add: q_def ulp_of_def e_def max_def)
  have qpos: "0 < q" by (simp add: q pow2_pos)
  have "pow2 (e - 52) \<le> pow2 e" by (rule pow2_mono) simp
  then have qx: "q \<le> x" using b(1) q by simp
  then have "1 \<le> x / q" using qpos by (simp add: pos_le_divide_eq)
  then have "1 \<le> \<lfloor>x / q\<rfloor>" by linarith
  then have n1: "1 \<le> round_half_even (x / q)" using round_half_even_floor [of "x / q"] by linarith
  then have "(1::rat) \<le> of_int (round_half_even (x / q))" by linarith
  then have "q \<le> of_int (round_half_even (x / q)) * q" using qpos by simp
  then have y: "0 < round_to_quantum q x" using qpos by (simp add: round_to_quantum_def)
  show ?thesis using y by (auto simp: rnd_def finite_or_inf_def q_def [symmetric] split: if_splits)
qed

lemma rnd_finite: assumes "\<bar>x\<bar> \<le> 2 ^ 1023" shows "\<exists>r. rnd x = Fin r"
proof -
  define q where "q = ulp_of x"
  define y where "y = round_to_quantum q x"
  have qpos: "0 < q" by (simp add: q_def ulp_of_def pow2_pos)
  have err: "\<bar>y - x\<bar> \<le> q / 2"
  proof -
    have "\<bar>of_int (round_half_even (x / q)) - x / q\<bar> \<le> 1 / 2" by (rule round_half_even_err)
    then have "\<bar>of_int (round_half_even (x / q)) - x / q\<bar> * q \<le> 1 / 2 * q"
      using qpos by (simp add: mult_right_mono)
    moreover have "\<bar>of_int (round_half_even (x / q)) - x / q\<bar> * q = \<bar>y - x\<bar>"
    proof -
      have "(of_int (round_half_even (x / q)) - x / q) * q = y - x"
        using qpos by (simp add: y_def round_to_quantum_def field_simps)
      moreover have "\<bar>of_int (round_half_even (x / q)) - x / q\<bar> * q
          = \<bar>(of_int (round_half_even (x / q)) - x / q) * q\<bar>"
        using qpos by (simp add: abs_mult)
      ultimately show ?thesis by simp
    qed
    ultimately show ?thesis by simp
  qed
  have qb: "q \<le> 2 ^ 1023"
  proof (cases "x = 0")
    case True
    then show ?thesis by (simp add: q_def ulp_of_def ilog2.simps pow2_def)
  next
    case False
    then have x0: "0 < \<bar>x\<bar>" by simp
    have b: "pow2 (ilog2 \<bar>x\<bar>) \<le> \<bar>x\<bar>" using ilog2_bounds [OF x0] by simp
    show ?thesis
    proof (cases "ilog2 \<bar>x\<bar> \<le> - 1022")
      case True
      then show ?thesis by (simp add: q_def ulp_of_def max_def pow2_def)
    next
      case False
      then have "q = pow2 (ilog2 \<bar>x\<bar> - 52)" by (simp add: q_def ulp_of_def max_def)
      moreover have "pow2 (ilog2 \<bar>x\<bar> - 52) \<le> pow2 (ilog2 \<bar>x\<bar>)" by (rule pow2_mono) simp
      ultimately show ?thesis using b assms by linarith
    qed
  qed
  have "\<bar>y\<bar> \<le> \<bar>x\<bar> + q / 2" using err by linarith
  then have "\<bar>y\<bar> < 2 ^ 1024" using assms qb qpos by simp
  then show ?thesis by (auto simp: rnd_def finite_or_inf_def q_def [symmetric] y_def [symmetric])
qed

subsection \<open>The loop of compute_metrics\<close>

lemma metrics_step_Inr:
  "metrics_step env metrics issue = Inr m' \<longleftrightarrow> issue_ok env issue \<and> m' = place env metrics issue"
  unfolding metrics_step_def issue_ok_def place_def add_of_def assignee_of_def status_of_def
    issue_type_of_def story_points_of_def cycle_time_of_def
  by (cases "get_assignee_name issue"; cases "get_status_category issue";
      cases "get_issue_type issue"; cases "get_story_points env issue";
      cases "get_cycle_time_days env issue")
     (auto split: json.splits)

lemma metrics_loop_Inr:
  "metrics_loop env m0 issues = Inr m \<longleftrightarrow>
     (\<forall>i \<in> set issues. issue_ok env i) \<and> m = foldl (place env) m0 issues"
proof (induction issues arbitrary: m0)
  case Nil
  show ?case by auto
next
  case (Cons i issues)
  show ?case
    by (cases "metrics_step env m0 i")
       (use Cons metrics_step_Inr [of env m0 i] in \<open>auto simp: and_then_eq_Inr\<close>)
qed

lemma same_key_refl [simp]: "same_key k k"
  by (simp add: same_key_def)

lemma same_key_sym: "same_key a b = same_key b a"
  by (auto simp: same_key_def)

lemma bucket_at_update:
  "bucket_at (update_bucket k f M) k2 =
     (if same_key k k2 then f (bucket_at M k) else bucket_at M k2)"
  by (induction M) (auto simp: bucket_at_def same_key_def)

lemma bucket_at_cong: "same_key a b \<Longrightarrow> bucket_at M a = bucket_at M b"
  by (simp add: bucket_at_def same_key_def)

lemma bucket_at_place:
  "bucket_at (place env M i) k =
     (if has_assignee k i then add_of env i (bucket_at M k) else bucket_at M k)"
  unfolding place_def bucket_at_update has_assignee_def
  using bucket_at_cong [of "assignee_of i" k M] by simp

lemma bucket_at_foldl:
  "bucket_at (foldl (place env) M0 issues) k =
     foldl (\<lambda>m i. add_of env i m) (bucket_at M0 k) (filter (has_assignee k) issues)"
  by (induction issues rule: rev_induct) (simp_all add: bucket_at_place)

lemma keys_update:
  "map (dict_key \<circ> fst) (update_bucket k f M) =
     (if dict_key k \<in> set (map (dict_key \<circ> fst) M) then map (dict_key \<circ> fst) M
      else map (dict_key \<circ> fst) M @ [dict_key k])"
  by (induction M) (force simp: same_key_def)+

lemma keys_place:
  "map (dict_key \<circ> fst) (place env M i) =
     (if dict_key (assignee_of i) \<in> set (map (dict_key \<circ> fst) M) then map (dict_key \<circ> fst) M
      else map (dict_key \<circ> fst) M @ [dict_key (assignee_of i)])"
  unfolding place_def by (rule keys_update)

lemma distinct_keys_foldl:
  "distinct (map (dict_key \<circ> fst) M0) \<Longrightarrow>
   distinct (map (dict_key \<circ> fst) (foldl (place env) M0 issues))"
  by (induction issues rule: rev_induct) (simp_all add: keys_place)

lemma bucket_at_member:
  "distinct (map (dict_key \<circ> fst) M) \<Longrightarrow> (k, m) \<in> set M \<Longrightarrow> bucket_at M k = m"
  by (induction M) (auto simp: bucket_at_def same_key_def rev_image_eqI)

lemma key_set_place:
  "(\<lambda>p. dict_key (fst p)) ` set (place env M i) =
     insert (dict_key (assignee_of i)) ((\<lambda>p. dict_key (fst p)) ` set M)"
proof -
  have "set (map (dict_key \<circ> fst) (place env M i)) =
      insert (dict_key (assignee_of i)) (set (map (dict_key \<circ> fst) M))"
    unfolding keys_place by (simp add: insert_absorb)
  then show ?thesis by (simp add: comp_def)
qed

lemma key_set_foldl:
  "(\<lambda>p. dict_key (fst p)) ` set (foldl (place env) M0 issues) =
     (\<lambda>p. dict_key (fst p)) ` set M0 \<union> (\<lambda>i. dict_key (assignee_of i)) ` set issues"
  by (induction issues rule: rev_induct) (simp_all add: key_set_place)

lemma bucket_of_Nil [simp]: "bucket_of env [] = new_bucket"
  by (simp add: bucket_of_def)

lemma bucket_of_snoc [simp]: "bucket_of env (xs @ [i]) = add_of env i (bucket_of env xs)"
  by (simp add: bucket_of_def)

lemmas add_defs = add_of_def add_issue_def count_done_def count_type_def

lemma bucket_total_issues: "total_issues (bucket_of env xs) = int (length xs)"
  by (induction xs rule: rev_induct) (simp_all add: new_bucket_def add_defs)

lemma bucket_total_story_points:
  "total_story_points (bucket_of env xs) = foldl fadd (Fin 0) (map (story_points_of env) xs)"
  by (induction xs rule: rev_induct) (simp_all add: new_bucket_def add_defs)

lemma bucket_story_points_list:
  "story_points_list (bucket_of env xs) = map (story_points_of env) xs"
  by (induction xs rule: rev_induct) (simp_all add: new_bucket_def add_defs)

lemma bucket_completed_issues:
  "completed_issues (bucket_of env xs) = int (length (filter is_done xs))"
  by (induction xs rule: rev_induct) (simp_all add: new_bucket_def add_defs is_done_def)

lemma bucket_completed_story_points:
  "completed_story_points (bucket_of env xs) =
     foldl fadd (Fin 0) (map (story_points_of env) (filter is_done xs))"
  by (induction xs rule: rev_induct) (simp_all add: new_bucket_def add_defs is_done_def)

lemma bucket_cycle_times:
  "cycle_times (bucket_of env xs) =
     filter fgt0 (map (cycle_time_of env) (filter is_done xs))"
  by (induction xs rule: rev_induct) (simp_all add: new_bucket_def add_defs is_done_def)

lemma bucket_bug_count:
  "bug_count (bucket_of env xs) =
     int (length (filter (\<lambda>i. lower (issue_type_of i) = ''bug'') xs))"
  by (induction xs rule: rev_induct) (simp_all add: new_bucket_def add_defs)

lemma bucket_story_count:
  "story_count (bucket_of env xs) =
     int (length (filter (\<lambda>i. lower (issue_type_of i) = ''story'') xs))"
  by (induction xs rule: rev_induct) (simp_all add: new_bucket_def add_defs)

lemma compute_metrics_Inr:
  "compute_metrics env issues = Inr metrics \<longleftrightarrow>
     (\<forall>i \<in> set issues. issue_ok env i) \<and> metrics = foldl (place env) [] issues"
  by (simp add: compute_metrics_def metrics_loop_Inr)

lemma metrics_distinct:
  "compute_metrics env issues = Inr metrics \<Longrightarrow> distinct (map (dict_key \<circ> fst) metrics)"
  using distinct_keys_foldl [of "[]" env issues] by (simp add: compute_metrics_Inr)

lemma metrics_bucket:
  assumes "compute_metrics env issues = Inr metrics" and "(k, m) \<in> set metrics"
  shows "m = bucket_of env (filter (has_assignee k) issues)"
proof -
  have M: "metrics = foldl (place env) [] issues" using assms(1) by (simp add: compute_metrics_Inr)
  have "bucket_at metrics k = m"
    using metrics_distinct [OF assms(1)] assms(2) by (rule bucket_at_member)
  moreover have "bucket_at metrics k = bucket_of env (filter (has_assignee k) issues)"
    unfolding M bucket_at_foldl by (simp add: bucket_of_def bucket_at_def)
  ultimately show ?thesis by simp
qed

lemma total_issues_place:
  "sum_list (map (\<lambda>(k, m). total_issues m) (update_bucket a (add_of env i) M)) =
     sum_list (map (\<lambda>(k, m). total_issues m) M) + 1"
  by (induction M) (auto simp: new_bucket_def add_defs)

lemma total_issues_foldl:
  "sum_list (map (\<lambda>(k, m). total_issues m) (foldl (place env) M0 issues)) =
     sum_list (map (\<lambda>(k, m). total_issues m) M0) + int (length issues)"
  by (induction issues rule: rev_induct) (simp_all add: place_def total_issues_place)

lemma issue_has_bucket:
  assumes "compute_metrics env issues = Inr metrics" and "issue \<in> set issues"
  shows "\<exists>(k, m) \<in> set metrics. has_assignee k issue"
proof -
  have M: "metrics = foldl (place env) [] issues" using assms(1) by (simp add: compute_metrics_Inr)
  have "dict_key (assignee_of issue) \<in> (\<lambda>p. dict_key (fst p)) ` set metrics"
    unfolding M key_set_foldl using assms(2) by simp
  then obtain k m where "(k, m) \<in> set metrics" "dict_key (assignee_of issue) = dict_key k"
    by auto
  then show ?thesis by (auto simp: has_assignee_def same_key_def)
qed

lemma issue_ok_done:
  "issue_ok env issue \<Longrightarrow> is_done issue \<Longrightarrow> get_status_category issue = Inr ''done''"
  by (auto simp: issue_ok_def is_done_def status_of_def DONE_STATUS_CATEGORIES_def)

lemma issue_ok_cycle_time:
  "issue_ok env issue \<Longrightarrow> get_cycle_time_days env issue = Inr (cycle_time_of env issue)"
  by (auto simp: issue_ok_def cycle_time_of_def)

lemma issue_ok_assignee:
  "issue_ok env issue \<Longrightarrow> get_assignee_name issue = Inr (assignee_of issue)"
  by (auto simp: issue_ok_def assignee_of_def)

subsection \<open>The loop of compute_sprint_totals\<close>

lemma totals_loop_assigned:
  "totals_loop t metrics = foldl (\<lambda>t (k, m). add_totals m t) t (assigned metrics)"
  by (induction metrics arbitrary: t) (auto simp: assigned_def)

lemma assigned_idem [simp]: "assigned (assigned metrics) = assigned metrics"
  by (simp add: assigned_def)

lemma foldl_sum_total_issues:
  "sum_total_issues (foldl (\<lambda>t (k, m). add_totals m t) t xs) =
     sum_total_issues t + sum_list (map (\<lambda>(k, m). total_issues m) xs)"
  by (induction xs arbitrary: t) (auto simp: add_totals_def)

lemma foldl_sum_completed_issues:
  "sum_completed_issues (foldl (\<lambda>t (k, m). add_totals m t) t xs) =
     sum_completed_issues t + sum_list (map (\<lambda>(k, m). completed_issues m) xs)"
  by (induction xs arbitrary: t) (auto simp: add_totals_def)

lemma foldl_total_bugs:
  "total_bugs (foldl (\<lambda>t (k, m). add_totals m t) t xs) =
     total_bugs t + sum_list (map (\<lambda>(k, m). bug_count m) xs)"
  by (induction xs arbitrary: t) (auto simp: add_totals_def)

lemma foldl_total_stories:
  "total_stories (foldl (\<lambda>t (k, m). add_totals m t) t xs) =
     total_stories t + sum_list (map (\<lambda>(k, m). story_count m) xs)"
  by (induction xs arbitrary: t) (auto simp: add_totals_def)

lemma foldl_sum_total_story_points:
  "sum_total_story_points (foldl (\<lambda>t (k, m). add_totals m t) t xs) =
     foldl fadd (sum_total_story_points t) (map (\<lambda>(k, m). total_story_points m) xs)"
  by (induction xs arbitrary: t) (auto simp: add_totals_def)

lemma foldl_sum_completed_story_points:
  "sum_completed_story_points (foldl (\<lambda>t (k, m). add_totals m t) t xs) =
     foldl fadd (sum_completed_story_points t) (map (\<lambda>(k, m). completed_story_points m) xs)"
  by (induction xs arbitrary: t) (auto simp: add_totals_def)

lemma foldl_all_cycle_times:
  "all_cycle_times (foldl (\<lambda>t (k, m). add_totals m t) t xs) =
     all_cycle_times t @ concat (map (\<lambda>(k, m). cycle_times m) xs)"
  by (induction xs arbitrary: t) (auto simp: add_totals_def)

lemma foldl_all_story_points:
  "all_story_points (foldl (\<lambda>t (k, m). add_totals m t) t xs) =
     all_story_points t @ concat (map (\<lambda>(k, m). story_points_list m) xs)"
  by (induction xs arbitrary: t) (auto simp: add_totals_def)

lemma foldl_assignee_story_points:
  "assignee_story_points (foldl (\<lambda>t (k, m). add_totals m t) t xs) =
     assignee_story_points t @ filter fgt0 (map (\<lambda>(k, m). total_story_points m) xs)"
  by (induction xs arbitrary: t) (auto simp: add_totals_def)

lemma dict_key_JStr: "dict_key a = JStr s \<longleftrightarrow> a = JStr s"
  by (cases a rule: dict_key.cases) auto

lemma same_key_JStr: "same_key k (JStr s) \<longleftrightarrow> k = JStr s"
  by (simp add: same_key_def dict_key_JStr)

lemma same_key_JStr': "same_key (JStr s) k \<longleftrightarrow> k = JStr s"
  by (auto simp: same_key_def dict_key_JStr dest: sym)

lemma assigned_update_unassigned:
  "assigned (update_bucket (JStr ''Unassigned'') f M) = assigned M"
  by (induction M) (auto simp: assigned_def same_key_JStr)

lemma assigned_update_other:
  "a \<noteq> JStr ''Unassigned'' \<Longrightarrow>
   assigned (update_bucket a f M) = update_bucket a f (assigned M)"
  by (induction M) (auto simp: assigned_def same_key_JStr')

lemma assigned_place:
  "assigned (place env M i) =
     (if assignee_of i = JStr ''Unassigned'' then assigned M else place env (assigned M) i)"
  by (simp add: place_def assigned_update_unassigned assigned_update_other)

lemma assigned_foldl:
  "assigned (foldl (place env) M0 issues) =
     foldl (place env) (assigned M0)
       (filter (\<lambda>i. assignee_of i \<noteq> JStr ''Unassigned'') issues)"
  by (induction issues rule: rev_induct) (simp_all add: assigned_place)

lemma compute_metrics_assigned:
  assumes "compute_metrics env issues = Inr metrics"
  shows "compute_metrics env (filter (\<lambda>i. assignee_of i \<noteq> JStr ''Unassigned'') issues)
       = Inr (assigned metrics)"
proof -
  have ok: "\<forall>i \<in> set issues. issue_ok env i" and M: "metrics = foldl (place env) [] issues"
    using assms by (simp_all add: compute_metrics_Inr)
  have "assigned metrics =
      foldl (place env) [] (filter (\<lambda>i. assignee_of i \<noteq> JStr ''Unassigned'') issues)"
    unfolding M assigned_foldl by (simp add: assigned_def)
  then show ?thesis using ok by (simp add: compute_metrics_Inr)
qed

lemma write_csv_summary:
  "write_csv env metrics = Inr file \<Longrightarrow>
   write_summary env (compute_sprint_totals metrics) = Inr (summary file)"
  by (auto simp: write_csv_def and_then_eq_Inr)

lemma write_summary_velocity:
  "write_summary env t = Inr sm \<Longrightarrow> Team_Velocity sm = sum_completed_story_points t"
  by (auto simp: write_summary_def and_then_eq_Inr)

subsection \<open>The rows of write_csv\<close>

lemma float_of_int_pos:
  assumes "0 < n" and "float_of_int n = Inr f"
  shows "f \<noteq> Fin 0"
proof -
  have "(1::rat) \<le> of_int n" using assms(1) by simp
  then have "rnd (of_int n) \<noteq> Fin 0" by (rule rnd_pos_nonzero)
  then show ?thesis using assms(2) by (auto simp: float_of_int_def split: pyfloat.splits)
qed

lemma fdiv_Inl: "fdiv x y = Inl e \<longleftrightarrow> e = ZeroDivisionError \<and> y = Fin 0"
  by (cases "(x, y)" rule: fdiv.cases) (auto split: pyfloat.splits)

lemma float_of_int_Inl: "float_of_int n = Inl e \<Longrightarrow> e = OverflowError"
  by (auto simp: float_of_int_def split: pyfloat.splits)

lemma fgt0_nonzero: "fgt0 x \<Longrightarrow> x \<noteq> Fin 0"
  by (auto simp: fgt0_def)

lemma pct_of_ints_no_zero_division:
  "0 < t \<Longrightarrow> pct_of_ints c t \<noteq> Inl ZeroDivisionError"
proof
  assume t: "0 < t" and e: "pct_of_ints c t = Inl ZeroDivisionError"
  show False
  proof (cases "float_of_int c")
    case (Inl x)
    then show False using e float_of_int_Inl [OF Inl] by (simp add: pct_of_ints_def)
  next
    case c: (Inr fc)
    show False
    proof (cases "float_of_int t")
      case (Inl x)
      then show False using e c float_of_int_Inl [OF Inl] by (simp add: pct_of_ints_def)
    next
      case (Inr ft)
      then have "ft \<noteq> Fin 0" using t float_of_int_pos by blast
      then obtain q where "fdiv (fmul (Fin 100) fc) ft = Inr q"
        by (cases "fdiv (fmul (Fin 100) fc) ft") (auto simp: fdiv_Inl)
      then show False using e c Inr by (simp add: pct_of_ints_def)
    qed
  qed
qed

lemma pct_of_ints_Inr:
  assumes "0 < t" and "pct_of_ints c t = Inr p"
  shows "\<exists>fc ft q. float_of_int c = Inr fc \<and> float_of_int t = Inr ft \<and> ft \<noteq> Fin 0
           \<and> fdiv (fmul (Fin 100) fc) ft = Inr q \<and> p = round1 q"
  using assms float_of_int_pos [OF assms(1)]
  by (auto simp: pct_of_ints_def and_then_eq_Inr)

lemma pct_of_floats_Inr:
  "pct_of_floats a b = Inr p \<longleftrightarrow> (\<exists>q. fdiv (fmul (Fin 100) a) b = Inr q \<and> p = round1 q)"
  by (auto simp: pct_of_floats_def and_then_eq_Inr)

lemma assignee_row_Inr:
  assumes "assignee_row env types a m = Inr row"
  shows "Assignee row = a"
    and "completion_pct_issues (completed_issues m) (total_issues m)
           = Inr (Completion_Pct_Issues row)"
    and "completion_pct_story_points (completed_story_points m) (total_story_points m)
           = Inr (Completion_Pct_Story_Points row)"
  using assms by (auto simp: assignee_row_def and_then_eq_Inr)

lemma write_rows_Inr:
  "write_rows env types items = Inr rs \<Longrightarrow>
   list_all2 (\<lambda>(a, m) row. assignee_row env types a m = Inr row) items rs"
  by (induction items arbitrary: rs) (auto simp: and_then_eq_Inr)

lemma lowered_items_Inr:
  "lowered_items metrics = Inr items \<Longrightarrow>
   metrics = map (\<lambda>(l, name, m). (JStr name, m)) items"
  by (induction metrics arbitrary: items)
     (auto simp: and_then_eq_Inr split: json.splits)

lemma sorted_items_Inr:
  assumes "sorted_items metrics = Inr items"
  shows "set metrics = (\<lambda>(name, m). (JStr name, m)) ` set items"
    and "length items = length metrics"
proof -
  from assms obtain ls where ls: "lowered_items metrics = Inr ls"
      and items: "items = map snd (sort_key fst ls)"
    by (auto simp: sorted_items_def and_then_eq_Inr)
  have m: "metrics = map (\<lambda>(l, name, m). (JStr name, m)) ls"
    using ls by (rule lowered_items_Inr)
  have "set metrics = (\<lambda>(l, name, m). (JStr name, m)) ` set ls" by (subst m) simp
  also have "\<dots> = (\<lambda>(name, m). (JStr name, m)) ` snd ` set ls"
    by (force simp: image_iff)
  finally show "set metrics = (\<lambda>(name, m). (JStr name, m)) ` set items"
    by (simp add: items)
  show "length items = length metrics" by (simp add: items m)
qed

subsection \<open>The extractors\<close>

lemma pow2_power_int: "pow2 k = power_int 2 k"
  by (simp add: pow2_def power_int_def power_one_over [symmetric] inverse_eq_divide)

lemma pow2_add: "pow2 (a + b) = pow2 a * pow2 b"
  by (simp add: pow2_power_int power_int_add)

lemma pow2_less_imp: "pow2 a < pow2 b \<Longrightarrow> a < b"
  using pow2_mono [of b a] by (cases "a < b") simp_all

lemma rnd_overflow:
  assumes "2 ^ 1024 \<le> x"
  shows "rnd x = PInf"
proof -
  have x0: "0 < \<bar>x\<bar>" "\<bar>x\<bar> = x" using assms by simp_all
  define e where "e = ilog2 \<bar>x\<bar>"
  have b: "pow2 e \<le> x" "x < 2 * pow2 e"
    using ilog2_bounds [OF x0(1)] x0(2) by (simp_all add: e_def)
  have "pow2 1023 < pow2 e" using b(2) assms by (simp add: pow2_def)
  then have e: "1023 < e" by (rule pow2_less_imp)
  then have "pow2 1024 \<le> pow2 e" by (intro pow2_mono) simp
  then have pe: "2 ^ 1024 \<le> pow2 e" by (simp add: pow2_def)
  define q where "q = ulp_of x"
  have q: "q = pow2 (e - 52)" using e by (simp add: q_def ulp_of_def e_def max_def)
  have qpos: "0 < q" by (simp add: q pow2_pos)
  define T :: rat where "T = 2 ^ 52"
  define N :: rat where "N = 2 ^ 1024"
  define n where "n = round_half_even (x / q)"
  have "pow2 e = pow2 (e - 52) * pow2 52" using pow2_add [of "e - 52" 52] by simp
  then have eq: "pow2 e = q * T" by (simp add: q pow2_def T_def)
  have Tpos: "0 < T" by (simp add: T_def)
  have "q * T \<le> x" using b(1) eq by simp
  then have "T \<le> x / q" using qpos by (simp add: pos_le_divide_eq mult.commute)
  then have "(2 ^ 52 :: int) \<le> \<lfloor>x / q\<rfloor>" by (simp add: le_floor_iff T_def)
  then have "(2 ^ 52 :: int) \<le> n"
    unfolding n_def using round_half_even_floor [of "x / q"] by linarith
  then have "of_int (2 ^ 52) \<le> (of_int n :: rat)" by (simp only: of_int_le_iff)
  then have "T \<le> of_int n" by (simp add: T_def)
  then have "q * T \<le> q * of_int n" using qpos by (simp add: mult_left_mono)
  then have "N \<le> of_int n * q" using pe eq by (simp add: N_def mult.commute)
  then have "2 ^ 1024 \<le> round_to_quantum q x"
    by (simp add: round_to_quantum_def n_def N_def)
  then show ?thesis by (simp add: rnd_def finite_or_inf_def q_def [symmetric])
qed

lemma rnd_finite_range:
  assumes "\<bar>x\<bar> < 2 ^ 1024 - 2 ^ 970"
  shows "\<exists>r. rnd x = Fin r"
proof -
  define T :: rat where "T = 2 ^ 1024"
  define H :: rat where "H = 2 ^ 970"
  have T: "T = pow2 1024" and H: "H = pow2 970" by (simp_all add: T_def H_def pow2_def)
  have Hpos: "0 < H" unfolding H by (rule pow2_pos)
  have a: "\<bar>x\<bar> < T - H" using assms by (simp add: T_def H_def)
  define q where "q = ulp_of x"
  define y where "y = round_to_quantum q x"
  have qpos: "0 < q" by (simp add: q_def ulp_of_def pow2_pos)
  have err: "\<bar>y - x\<bar> \<le> q / 2"
  proof -
    have "\<bar>of_int (round_half_even (x / q)) - x / q\<bar> \<le> 1 / 2" by (rule round_half_even_err)
    then have "\<bar>of_int (round_half_even (x / q)) - x / q\<bar> * q \<le> 1 / 2 * q"
      using qpos by (simp add: mult_right_mono)
    moreover have "\<bar>of_int (round_half_even (x / q)) - x / q\<bar> * q = \<bar>y - x\<bar>"
    proof -
      have "(of_int (round_half_even (x / q)) - x / q) * q = y - x"
        using qpos by (simp add: y_def round_to_quantum_def field_simps)
      moreover have "\<bar>of_int (round_half_even (x / q)) - x / q\<bar> * q
          = \<bar>(of_int (round_half_even (x / q)) - x / q) * q\<bar>"
        using qpos by (simp add: abs_mult)
      ultimately show ?thesis by simp
    qed
    ultimately show ?thesis by simp
  qed
  have e: "max (ilog2 \<bar>x\<bar>) (- 1022) - 52 \<le> 971"
  proof (cases "x = 0")
    case True
    then show ?thesis by (simp add: ilog2.simps)
  next
    case False
    then have x0: "0 < \<bar>x\<bar>" by simp
    have "pow2 (ilog2 \<bar>x\<bar>) \<le> \<bar>x\<bar>" using ilog2_bounds [OF x0] by simp
    then have "pow2 (ilog2 \<bar>x\<bar>) < pow2 1024" using a Hpos unfolding T by linarith
    then have "ilog2 \<bar>x\<bar> < 1024" by (rule pow2_less_imp)
    then show ?thesis by simp
  qed
  have "q \<le> pow2 971" unfolding q_def ulp_of_def using e by (rule pow2_mono)
  moreover have "pow2 971 = 2 * H" unfolding H using pow2_Suc [of 970] by simp
  ultimately have qb: "q / 2 \<le> H" by simp
  have "\<bar>y\<bar> \<le> \<bar>x\<bar> + q / 2" using err by linarith
  then have "\<bar>y\<bar> < T" using a qb by linarith
  then have "\<not> T \<le> y" "\<not> y \<le> - T" by linarith+
  then show ?thesis
    unfolding rnd_def finite_or_inf_def q_def [symmetric] y_def [symmetric] T_def by simp
qed

lemma float_of_int_in_range:
  assumes "\<bar>n\<bar> < 2 ^ 1024 - 2 ^ 970"
  shows "\<exists>r. float_of_int n = Inr (Fin r)"
proof -
  have "(of_int \<bar>n\<bar> :: rat) < of_int (2 ^ 1024 - 2 ^ 970)"
    using assms by (simp only: of_int_less_iff)
  then have "\<bar>of_int n :: rat\<bar> < 2 ^ 1024 - 2 ^ 970" by simp
  then obtain r where "rnd (of_int n) = Fin r" using rnd_finite_range by blast
  then show ?thesis by (simp add: float_of_int_def)
qed

lemma subscript_fields:
  "subscript issue ''fields'' = Inr v \<longleftrightarrow> (\<exists>d. issue = JDict d \<and> map_of d ''fields'' = Some v)"
  by (auto simp: subscript_def split: json.splits option.splits)

lemma dict_get_JDict [simp]:
  "dict_get (JDict d) key dflt = Inr (case map_of d key of None \<Rightarrow> dflt | Some v \<Rightarrow> v)"
  by (simp add: dict_get_def)

lemma opt_string_cases:
  "opt_string v \<Longrightarrow> v = None \<or> v = Some JNull \<or> (\<exists>s. v = Some (JStr s))"
  by (erule opt_string.elims) simp_all

lemma assignee_name_of_user:
  assumes "opt_string (map_of a ''displayName'')" and "opt_string (map_of a ''emailAddress'')"
  shows "\<exists>name. and_then (dict_get (JDict a) ''displayName'' JNull) (\<lambda>display_name.
            if truthy display_name then Inr display_name
            else and_then (dict_get (JDict a) ''emailAddress'' JNull) (\<lambda>email.
                 if truthy email then Inr email else Inr (JStr ''Unknown'')))
          = Inr (JStr name) \<and> name \<noteq> []"
  using opt_string_cases [OF assms(1)] opt_string_cases [OF assms(2)]
  by (elim disjE exE) simp_all

lemma get_assignee_name_typed:
  assumes "subscript issue ''fields'' = Inr (JDict f)" and "assignee_typed f"
  shows "\<exists>name. get_assignee_name issue = Inr (JStr name) \<and> name \<noteq> []"
proof (cases "map_of f ''assignee''")
  case None
  then show ?thesis using assms(1) by (simp add: get_assignee_name_def)
next
  case (Some v)
  show ?thesis
  proof (cases v)
    case JNull
    then show ?thesis using assms(1) Some by (simp add: get_assignee_name_def)
  next
    case (JDict a)
    then have "opt_string (map_of a ''displayName'')" "opt_string (map_of a ''emailAddress'')"
      using assms(2) Some by (simp_all add: assignee_typed_def)
    then show ?thesis
      using assignee_name_of_user [of a] assms(1) Some JDict
      by (simp add: get_assignee_name_def cong: and_then_weak_cong)
  qed (use assms(2) Some in \<open>simp_all add: assignee_typed_def\<close>)
qed

lemma category_key_typed:
  assumes "category_typed v"
  shows "\<exists>s. and_then (dict_get (py_or (case v of None \<Rightarrow> JNull | Some c \<Rightarrow> c) (JDict []))
                     ''key'' (JStr [])) str_lower = Inr s"
proof (cases v)
  case None
  then show ?thesis by (simp add: py_or_def str_lower_def)
next
  case (Some c)
  show ?thesis
  proof (cases c)
    case JNull
    then show ?thesis using Some by (simp add: py_or_def str_lower_def)
  next
    case (JDict d)
    show ?thesis
    proof (cases "map_of d ''key''")
      case None
      then show ?thesis using Some JDict by (simp add: py_or_def str_lower_def)
    next
      case k: (Some key)
      then obtain s where "key = JStr s"
        using assms Some JDict by (cases key) (simp_all add: category_typed_def)
      then show ?thesis using Some JDict k by (auto simp: py_or_def str_lower_def)
    qed
  qed (use assms Some in \<open>simp_all add: category_typed_def\<close>)
qed

lemma get_status_category_typed:
  assumes "subscript issue ''fields'' = Inr (JDict f)" and "status_typed f"
  shows "\<exists>s. get_status_category issue = Inr s"
proof (cases "map_of f ''status''")
  case None
  then show ?thesis using assms(1) by (simp add: get_status_category_def py_or_def str_lower_def)
next
  case (Some v)
  show ?thesis
  proof (cases v)
    case JNull
    then show ?thesis
      using assms(1) Some by (simp add: get_status_category_def py_or_def str_lower_def)
  next
    case (JDict s)
    then have c: "category_typed (map_of s ''statusCategory'')"
      using assms(2) Some by (simp add: status_typed_def)
    show ?thesis
    proof (cases "s = []")
      case True
      then show ?thesis
        using assms(1) Some JDict by (simp add: get_status_category_def py_or_def str_lower_def)
    next
      case False
      then show ?thesis
        using category_key_typed [OF c] assms(1) Some JDict
        by (simp add: get_status_category_def py_or_def cong: and_then_weak_cong)
    qed
  qed (use assms(2) Some in \<open>simp_all add: status_typed_def\<close>)
qed

lemma get_issue_type_typed:
  assumes "subscript issue ''fields'' = Inr (JDict f)" and "issuetype_typed f"
  shows "\<exists>t. get_issue_type issue = Inr t"
proof (cases "map_of f ''issuetype''")
  case None
  then show ?thesis using assms(1) by (simp add: get_issue_type_def py_or_def)
next
  case (Some v)
  show ?thesis
  proof (cases v)
    case JNull
    then show ?thesis using assms(1) Some by (simp add: get_issue_type_def py_or_def)
  next
    case (JDict t)
    then show ?thesis using assms(1) Some by (simp add: get_issue_type_def py_or_def)
  qed (use assms(2) Some in \<open>simp_all add: issuetype_typed_def\<close>)
qed

lemma py_float_rejects:
  "float_rejects env v \<Longrightarrow> py_float env v = Inl TypeError \<or> py_float env v = Inl ValueError"
  by (cases v) (simp_all add: float_rejects_def py_float_def)

lemma py_float_accepts:
  "\<not> float_rejects env v \<Longrightarrow>
   py_float env v \<noteq> Inl TypeError \<and> py_float env v \<noteq> Inl ValueError"
  by (cases v) (auto simp: float_rejects_def py_float_def float_of_int_def split: pyfloat.splits)

lemma get_story_points_fields:
  assumes "subscript issue ''fields'' = Inr (JDict f)"
  shows "get_story_points env issue =
     (case map_of f (STORY_POINTS_FIELD env) of
        None \<Rightarrow> Inr (Fin 0)
      | Some v \<Rightarrow> (if float_rejects env v then Inr (Fin 0) else py_float env v))"
proof (cases "map_of f (STORY_POINTS_FIELD env)")
  case None
  then show ?thesis using assms by (simp add: get_story_points_def)
next
  case (Some v)
  show ?thesis
  proof (cases "float_rejects env v")
    case True
    then show ?thesis
      using assms Some py_float_rejects [OF True]
      by (auto simp: get_story_points_def)
  next
    case False
    then show ?thesis
      using assms Some py_float_accepts [OF False]
      by (cases "py_float env v") (auto simp: get_story_points_def float_rejects_def)
  qed
qed

lemma get_story_points_typed:
  assumes "subscript issue ''fields'' = Inr (JDict f)" and "story_points_in_range env f"
  shows "\<exists>x. get_story_points env issue = Inr x"
proof (cases "map_of f (STORY_POINTS_FIELD env)")
  case None
  then show ?thesis by (simp add: get_story_points_fields [OF assms(1)])
next
  case (Some v)
  show ?thesis
  proof (cases v)
    case (JInt n)
    then have "\<bar>n\<bar> < 2 ^ 1024 - 2 ^ 970"
      using assms(2) Some by (simp add: story_points_in_range_def)
    then obtain r where "float_of_int n = Inr (Fin r)" using float_of_int_in_range by blast
    then show ?thesis
      using Some JInt
      by (simp add: get_story_points_fields [OF assms(1)] float_rejects_def py_float_def)
  qed (use Some in \<open>auto simp: get_story_points_fields [OF assms(1)] float_rejects_def
        py_float_def split: option.splits\<close>)
qed

lemma datetime_sub_cases:
  "datetime_sub r c =
     (if aware r = aware c then Inr (instant_us r - instant_us c) else Inl TypeError)"
  by (auto simp: datetime_sub_def aware_def instant_us_def split: option.splits)

lemma parse_timestamp_Inr:
  "truthy v \<Longrightarrow> parse_timestamp env v = Inr dt \<longleftrightarrow>
     (\<exists>s. v = JStr s \<and> s \<noteq> [] \<and> fromisoformat env (replace_Z s) = Some dt)"
  by (cases v) (auto simp: parse_timestamp_def split: option.splits)

lemma parse_timestamp_Inl:
  "parse_timestamp env v = Inl e \<Longrightarrow> e = ValueError \<or> e = AttributeError"
  by (cases v) (auto simp: parse_timestamp_def split: option.splits)

lemma timestamp_of_Some:
  "timestamp_of env f key = Some dt \<longleftrightarrow>
     (\<exists>s. map_of f key = Some (JStr s) \<and> s \<noteq> [] \<and> fromisoformat env (replace_Z s) = Some dt)"
  by (auto simp: timestamp_of_def split: option.splits json.splits)

lemma timestamp_of_parse:
  "timestamp_of env f key = Some dt \<Longrightarrow>
     truthy (case map_of f key of None \<Rightarrow> JNull | Some v \<Rightarrow> v) \<and>
     parse_timestamp env (case map_of f key of None \<Rightarrow> JNull | Some v \<Rightarrow> v) = Inr dt"
  by (auto simp: timestamp_of_Some parse_timestamp_def)

lemma timestamp_of_None:
  assumes "timestamp_of env f key = None"
  shows "\<not> truthy (case map_of f key of None \<Rightarrow> JNull | Some v \<Rightarrow> v) \<or>
     (\<exists>e. parse_timestamp env (case map_of f key of None \<Rightarrow> JNull | Some v \<Rightarrow> v) = Inl e)"
proof (cases "map_of f key")
  case None
  then show ?thesis by simp
next
  case (Some v)
  show ?thesis
  proof (cases v)
    case (JStr s)
    then show ?thesis
      using assms Some by (auto simp: timestamp_of_def parse_timestamp_def split: if_splits)
  qed (use Some in \<open>simp_all add: parse_timestamp_def\<close>)
qed

lemma total_seconds_valid:
  assumes "\<bar>delta\<bar> \<le> 2 ^ 60"
  shows "\<exists>secs. rnd (of_int delta / 10 ^ 6) = Fin secs \<and> total_seconds delta = Inr (Fin secs)"
proof -
  have "\<bar>of_int delta :: rat\<bar> \<le> 2 ^ 60"
    using assms by (metis of_int_abs of_int_le_iff of_int_numeral of_int_power)
  moreover have "\<bar>of_int delta / 10 ^ 6 :: rat\<bar> \<le> \<bar>of_int delta\<bar>"
    by (simp add: divide_le_eq)
  ultimately have "\<bar>of_int delta / 10 ^ 6 :: rat\<bar> \<le> 2 ^ 1023" by simp
  then obtain secs where "rnd (of_int delta / 10 ^ 6) = Fin secs" using rnd_finite by blast
  then show ?thesis by (simp add: total_seconds_def int_truediv_def)
qed

lemma valid_elapsed:
  assumes "valid_datetime r" and "valid_datetime c"
  shows "\<bar>instant_us r - instant_us c\<bar> \<le> 2 ^ 60"
  using assms by (auto simp: valid_datetime_def instant_us_def split: option.splits)

lemma cycle_time_body_fields:
  assumes "subscript issue ''fields'' = Inr (JDict f)"
  shows "cycle_time_body env issue =
     (if \<not> truthy (case map_of f ''created'' of None \<Rightarrow> JNull | Some v \<Rightarrow> v)
         \<or> \<not> truthy (case map_of f ''resolutiondate'' of None \<Rightarrow> JNull | Some v \<Rightarrow> v)
      then Inr (Fin 0)
      else and_then
             (parse_timestamp env (case map_of f ''created'' of None \<Rightarrow> JNull | Some v \<Rightarrow> v))
             (\<lambda>created_dt.
           and_then
             (parse_timestamp env
                (case map_of f ''resolutiondate'' of None \<Rightarrow> JNull | Some v \<Rightarrow> v))
             (\<lambda>resolved_dt.
           and_then (datetime_sub resolved_dt created_dt) (\<lambda>delta.
           and_then (total_seconds delta) (\<lambda>secs.
           and_then (fdiv secs (Fin (24 * 3600))) (\<lambda>days. Inr (round1 days)))))))"
  using assms by (simp add: cycle_time_body_def cong: and_then_weak_cong if_weak_cong)

lemma get_cycle_time_days_fields:
  assumes "subscript issue ''fields'' = Inr (JDict f)" and "valid_datetimes env"
  shows "get_cycle_time_days env issue =
     (case (timestamp_of env f ''created'', timestamp_of env f ''resolutiondate'') of
        (Some c, Some r) \<Rightarrow>
          if aware c = aware r
          then Inr (round1 (elapsed_days (instant_us r - instant_us c)))
          else Inr (Fin 0)
      | _ \<Rightarrow> Inr (Fin 0))"
proof (cases "timestamp_of env f ''created''")
  case None
  from timestamp_of_None [OF None] show ?thesis
  proof
    assume "\<not> truthy (case map_of f ''created'' of None \<Rightarrow> JNull | Some v \<Rightarrow> v)"
    then show ?thesis
      by (simp add: get_cycle_time_days_def cycle_time_body_fields [OF assms(1)] None)
  next
    assume "\<exists>e. parse_timestamp env (case map_of f ''created'' of None \<Rightarrow> JNull | Some v \<Rightarrow> v)
        = Inl e"
    then obtain e where e: "parse_timestamp env
        (case map_of f ''created'' of None \<Rightarrow> JNull | Some v \<Rightarrow> v) = Inl e" ..
    show ?thesis
      using parse_timestamp_Inl [OF e]
      by (auto simp: get_cycle_time_days_def cycle_time_body_fields [OF assms(1)] None e)
  qed
next
  case c: (Some c)
  note pc = timestamp_of_parse [OF c]
  show ?thesis
  proof (cases "timestamp_of env f ''resolutiondate''")
    case None
    from timestamp_of_None [OF None] show ?thesis
    proof
      assume "\<not> truthy (case map_of f ''resolutiondate'' of None \<Rightarrow> JNull | Some v \<Rightarrow> v)"
      then show ?thesis
        by (simp add: get_cycle_time_days_def cycle_time_body_fields [OF assms(1)] None c)
    next
      assume "\<exists>e. parse_timestamp env
          (case map_of f ''resolutiondate'' of None \<Rightarrow> JNull | Some v \<Rightarrow> v) = Inl e"
      then obtain e where e: "parse_timestamp env
          (case map_of f ''resolutiondate'' of None \<Rightarrow> JNull | Some v \<Rightarrow> v) = Inl e" ..
      show ?thesis
        using parse_timestamp_Inl [OF e] pc
        by (auto simp: get_cycle_time_days_def cycle_time_body_fields [OF assms(1)] None c e)
    qed
  next
    case r: (Some r)
    note pr = timestamp_of_parse [OF r]
    have vc: "valid_datetime c" and vr: "valid_datetime r"
      using assms(2) c r by (auto simp: valid_datetimes_def timestamp_of_Some)
    show ?thesis
    proof (cases "aware c = aware r")
      case True
      obtain secs where secs: "rnd (of_int (instant_us r - instant_us c) / 10 ^ 6) = Fin secs"
          "total_seconds (instant_us r - instant_us c) = Inr (Fin secs)"
        using total_seconds_valid [OF valid_elapsed [OF vr vc]] by blast
      have "cycle_time_body env issue = Inr (round1 (rnd (secs / 86400)))"
        using pc pr True secs(2)
        by (simp add: cycle_time_body_fields [OF assms(1)] datetime_sub_cases)
      then show ?thesis using True secs(1) by (simp add: get_cycle_time_days_def c r elapsed_days_def)
    next
      case False
      have "cycle_time_body env issue = Inl TypeError"
        using pc pr False
        by (auto simp: cycle_time_body_fields [OF assms(1)] datetime_sub_cases)
      then show ?thesis using False by (simp add: get_cycle_time_days_def c r)
    qed
  qed
qed

subsection \<open>The loop of fetch_issues_for_sprint\<close>

lemma fetch_loop_step:
  assumes "get s 100 = Inr data"
      and "dict_get data ''issues'' (JList []) = Inr (JList page)"
      and "dict_get data ''total'' (JInt 0) = Inr (JInt t)"
  shows "fetch_loop get issues s =
     (if t \<le> s + 100 then Some (Inr (issues @ page))
      else fetch_loop get (issues @ page) (s + 100))"
  by (subst fetch_loop.simps) (simp add: assms py_iter_def int_ge_def)

lemma fetch_loop_paged:
  assumes "serves_pages get all" and "100 * k \<le> length all"
  shows "fetch_loop get (take (100 * k) all) (int (100 * k)) = Some (Inr all)"
  using assms(2)
proof (induction "length all - 100 * k" arbitrary: k rule: less_induct)
  case less
  obtain data where d: "get (int (100 * k)) 100 = Inr data"
      "dict_get data ''issues'' (JList []) = Inr (JList (take 100 (drop (100 * k) all)))"
      "dict_get data ''total'' (JInt 0) = Inr (JInt (int (length all)))"
    using assms(1) unfolding serves_pages_def
    by (metis nat_int of_nat_0_le_iff)
  have page: "take (100 * k) all @ take 100 (drop (100 * k) all) = take (100 * Suc k) all"
    by (simp add: take_add [symmetric] add.commute)
  note step = fetch_loop_step [where get = get and s = "int (100 * k)"
      and issues = "take (100 * k) all", OF d]
  have sk: "int (100 * k) + 100 = int (100 * Suc k)" by simp
  have step': "fetch_loop get (take (100 * k) all) (int (100 * k)) =
     (if int (length all) \<le> int (100 * Suc k) then Some (Inr (take (100 * Suc k) all))
      else fetch_loop get (take (100 * Suc k) all) (int (100 * Suc k)))"
    using step unfolding page sk .
  show ?case
  proof (cases "length all \<le> 100 * Suc k")
    case True
    then have "take (100 * Suc k) all = all" by simp
    moreover have "int (length all) \<le> int (100 * Suc k)" using True by (simp only: of_nat_le_iff)
    ultimately show ?thesis by (simp only: step' if_True)
  next
    case False
    then have le: "100 * Suc k \<le> length all" by simp
    have "length all - 100 * Suc k < length all - 100 * k" using le by simp
    then have "fetch_loop get (take (100 * Suc k) all) (int (100 * Suc k)) = Some (Inr all)"
      using less.hyps le by blast
    moreover have "\<not> int (length all) \<le> int (100 * Suc k)"
      using False by (simp only: of_nat_le_iff not_False_eq_True)
    ultimately show ?thesis by (simp only: step' if_False)
  qed
qed

lemma jira_page_serves: "serves_pages (\<lambda>s m. Inr (jira_page all s m)) all"
  by (simp add: serves_pages_def jira_page_def)

subsection \<open>The detector\<close>

lemma catch_Inr [simp]: "catch (Inr v) fallback = Inr v"
  by (simp add: catch_def)

lemma catch_Inl [simp]:
  "catch (Inl e) fallback = (if is_Exception e then Inr fallback else Inl e)"
  by (simp add: catch_def)

















subsection \<open>Evaluating the examples\<close>

lemma floor_numeral_fraction [simp]:
  "\<lfloor>(numeral a :: rat) / numeral b\<rfloor> = numeral a div numeral b"
  using floor_divide_of_int_eq [of "numeral a" "numeral b", where ?'a = rat] by simp

lemma floor_neg_numeral_fraction [simp]:
  "\<lfloor>- ((numeral a :: rat) / numeral b)\<rfloor> = (- numeral a) div numeral b"
  using floor_divide_of_int_eq [of "- numeral a" "numeral b", where ?'a = rat] by simp

lemmas rnd_eval = rnd_def finite_or_inf_def round_to_quantum_def ulp_of_def
  round_half_even_def half_even_def pow2_def ilog2.simps float_of_int_def int_truediv_def

lemmas extract_eval = get_assignee_name_def get_status_category_def get_issue_type_def
  get_story_points_def get_cycle_time_days_def cycle_time_body_def subscript_def dict_get_def
  py_or_def str_lower_def lower_def lower_char_def py_float_def parse_timestamp_def
  replace_Z_def datetime_sub_def total_seconds_def

lemmas metrics_eval = compute_metrics_def metrics_step_def add_issue_def count_done_def
  count_type_def new_bucket_def same_key_def DONE_STATUS_CATEGORIES_def fgt0_def

lemmas example_eval = example_env_def example_issue_def example_fields_def issue_with_def user_def example_fromisoformat_def
  example_mean_def example_stdev_def

lemma team_metrics_eval: "compute_metrics example_env team_issues = Inr team_metrics"
  by (simp add: team_issues_def team_metrics_def metrics_eval example_eval extract_eval rnd_eval
      cong: and_then_weak_cong)

lemma decimal_metrics_eval: "compute_metrics example_env decimal_issues = Inr decimal_metrics"
  by (simp add: decimal_issues_def decimal_metrics_def double_0_1_def double_0_2_def
      double_0_3_def metrics_eval example_eval extract_eval rnd_eval cong: and_then_weak_cong)

lemma decimal_story_points_eval:
  "map (story_points_of example_env) decimal_issues = [double_0_3, double_0_2, double_0_1]"
  by (simp add: decimal_issues_def story_points_of_def example_eval extract_eval
      cong: and_then_weak_cong)

lemmas csv_eval = write_csv_def sorted_items_def all_issue_types_def assignee_row_def
  write_summary_def compute_sprint_totals_def zero_totals_def add_totals_def
  pct_of_ints_def pct_of_floats_def float_per_int_def rounded_mean_def
  completion_pct_issues_def completion_pct_story_points_def float_list_min_def
  float_list_max_def fgt0_def float_value_def lower_def lower_char_def

lemma team_csv_eval: "write_csv example_env team_metrics = Inr team_csv"
  by (simp add: team_metrics_def team_csv_def csv_eval example_eval rnd_eval
      cong: and_then_weak_cong)

lemma valid_example_env: "valid_datetimes example_env"
  by (simp add: valid_datetimes_def valid_datetime_def example_env_def
      example_fromisoformat_def split: if_splits)

lemma issue_with_fields: "subscript (issue_with f) ''fields'' = Inr (JDict f)"
  by (simp add: issue_with_def subscript_def)

text \<open>The bound is exact: the next integer overflows.\<close>

lemma float_of_int_at_bound:
  "float_of_int (2 ^ 1024 - 2 ^ 970) = Inl OverflowError"
  by (simp add: float_of_int_def rnd_eval)

lemma story_points_overflow:
  "get_story_points example_env (issue_with huge_points_fields) = Inl OverflowError"
proof -
  have "rnd (of_int (10 ^ 400)) = PInf" by (rule rnd_overflow) simp
  then have "float_of_int (10 ^ 400) = Inl OverflowError" by (simp add: float_of_int_def)
  then show ?thesis
    by (simp add: get_story_points_fields [OF issue_with_fields] huge_points_fields_def
        example_fields_def example_env_def float_rejects_def py_float_def)
qed










section \<open>Grouping by assignee\<close>

text \<open>
  Claim C3, as the code has it. \<^verbatim>\<open>compute_metrics\<close> puts every issue into exactly one
  bucket: the keys of the buckets are pairwise different, every issue's assignee name is the
  key of a bucket, and a bucket's \<^verbatim>\<open>total_issues\<close> counts the issues with its key, so the
  counts add up to the length of the input. A bucket's \<^verbatim>\<open>total_story_points\<close> is the
  float sum, from 0.0 and in input order, of the story points of its own issues.
\<close>

theorem grouping_partitions_issues:
  assumes "compute_metrics env issues = Inr metrics"
  shows "sum_list (map (\<lambda>(k, m). total_issues m) metrics) = int (length issues)
       \<and> distinct (map (dict_key \<circ> fst) metrics)
       \<and> (\<forall>issue \<in> set issues. \<exists>(k, m) \<in> set metrics. has_assignee k issue)
       \<and> (\<forall>(k, m) \<in> set metrics.
             total_issues m = int (length (filter (has_assignee k) issues))
           \<and> total_story_points m =
               foldl fadd (Fin 0) (map (story_points_of env) (filter (has_assignee k) issues)))"
proof (intro conjI ballI)
  have M: "metrics = foldl (place env) [] issues" using assms by (simp add: compute_metrics_Inr)
  show "sum_list (map (\<lambda>(k, m). total_issues m) metrics) = int (length issues)"
    unfolding M total_issues_foldl by simp
  show "distinct (map (dict_key \<circ> fst) metrics)" using assms by (rule metrics_distinct)
next
  fix issue assume "issue \<in> set issues"
  with assms show "\<exists>(k, m) \<in> set metrics. has_assignee k issue" by (rule issue_has_bucket)
next
  fix p assume p: "p \<in> set metrics"
  obtain k m where km: "p = (k, m)" by (cases p)
  have "m = bucket_of env (filter (has_assignee k) issues)"
    using assms p unfolding km by (rule metrics_bucket)
  then show "case p of (k, m) \<Rightarrow>
       total_issues m = int (length (filter (has_assignee k) issues))
     \<and> total_story_points m =
         foldl fadd (Fin 0) (map (story_points_of env) (filter (has_assignee k) issues))"
    by (simp add: km bucket_total_issues bucket_total_story_points)
qed

theorem grouping_partitions_issues_witness:
  "compute_metrics example_env team_issues = Inr team_metrics
   \<and> sum_list (map (\<lambda>(k, m). total_issues m) team_metrics) = int (length team_issues)
   \<and> distinct (map (dict_key \<circ> fst) team_metrics)
   \<and> total_issues (snd (hd team_metrics)) =
       int (length (filter (has_assignee (JStr ''Ada'')) team_issues))
   \<and> total_story_points (snd (hd team_metrics)) =
       foldl fadd (Fin 0)
         (map (story_points_of example_env) (filter (has_assignee (JStr ''Ada'')) team_issues))"
proof -
  note t = grouping_partitions_issues [OF team_metrics_eval]
  have ada: "(JStr ''Ada'', snd (hd team_metrics)) \<in> set team_metrics"
    by (simp add: team_metrics_def)
  from t have a: "sum_list (map (\<lambda>(k, m). total_issues m) team_metrics) = int (length team_issues)"
    by (rule conjunct1)
  from t have b: "distinct (map (dict_key \<circ> fst) team_metrics)"
    by blast
  from t ada have c: "total_issues (snd (hd team_metrics)) =
       int (length (filter (has_assignee (JStr ''Ada'')) team_issues))
     \<and> total_story_points (snd (hd team_metrics)) =
       foldl fadd (Fin 0)
         (map (story_points_of example_env) (filter (has_assignee (JStr ''Ada'')) team_issues))"
    by blast
  show ?thesis using team_metrics_eval a b c by blast
qed

text \<open>
  The grand totals of the story points need not agree: with the story points 0.3 (Bob), 0.2
  and 0.1 (Ada), the buckets hold 0.3 and 0.30000000000000004, which add up to
  0.6000000000000001, and the story points of the three issues add up to 0.6. The exact sums
  of the values differ as well.
\<close>

theorem story_point_totals_counterexample:
  "compute_metrics example_env decimal_issues = Inr decimal_metrics
   \<and> py_sum (map (\<lambda>(k, m). total_story_points m) decimal_metrics)
       = Fin (1351079888211149 / 2251799813685248)
   \<and> py_sum (map (story_points_of example_env) decimal_issues)
       = Fin (5404319552844595 / 9007199254740992)
   \<and> sum_list (map (\<lambda>(k, m). float_value (total_story_points m)) decimal_metrics)
       \<noteq> sum_list (map (\<lambda>i. float_value (story_points_of example_env i)) decimal_issues)"
proof -
  have a: "py_sum (map (\<lambda>(k, m). total_story_points m) decimal_metrics)
       = Fin (1351079888211149 / 2251799813685248)"
    by (simp add: decimal_metrics_def py_sum_def double_0_3_def rnd_eval)
  have b: "py_sum (map (story_points_of example_env) decimal_issues)
       = Fin (5404319552844595 / 9007199254740992)"
    unfolding decimal_story_points_eval
    by (simp add: py_sum_def double_0_1_def double_0_2_def double_0_3_def rnd_eval)
  have c: "sum_list (map (\<lambda>(k, m). float_value (total_story_points m)) decimal_metrics)
       \<noteq> sum_list (map (\<lambda>i. float_value (story_points_of example_env i)) decimal_issues)"
  proof -
    have "map (\<lambda>i. float_value (story_points_of example_env i)) decimal_issues
        = map float_value (map (story_points_of example_env) decimal_issues)"
      by simp
    then show ?thesis
      unfolding decimal_story_points_eval
      by (simp add: decimal_metrics_def float_value_def double_0_1_def double_0_2_def
          double_0_3_def)
  qed
  show ?thesis using decimal_metrics_eval a b c by blast
qed

section \<open>Invariants of the buckets\<close>

text \<open>
  Claim C10. In every bucket that \<^verbatim>\<open>compute_metrics\<close> returns, the completed issues are
  at most the total, bugs and stories together are at most the total, the list of story points
  has one entry per issue, and every cycle time is strictly positive and is the cycle time of
  a done issue of that assignee.
\<close>

theorem bucket_invariants:
  assumes "compute_metrics env issues = Inr metrics" and "(k, m) \<in> set metrics"
  shows "completed_issues m \<le> total_issues m
       \<and> bug_count m + story_count m \<le> total_issues m
       \<and> int (length (story_points_list m)) = total_issues m
       \<and> (\<forall>ct \<in> set (cycle_times m).
            fgt0 ct
          \<and> (\<exists>issue \<in> set issues. \<exists>a.
                get_assignee_name issue = Inr a \<and> same_key a k
              \<and> get_status_category issue = Inr ''done''
              \<and> get_cycle_time_days env issue = Inr ct))"
proof -
  define xs where "xs = filter (has_assignee k) issues"
  have m: "m = bucket_of env xs" unfolding xs_def using assms by (rule metrics_bucket)
  have ok: "\<forall>i \<in> set issues. issue_ok env i" using assms(1) by (simp add: compute_metrics_Inr)
  have c1: "completed_issues m \<le> total_issues m"
    by (simp add: m bucket_completed_issues bucket_total_issues)
  have "length (filter (\<lambda>i. lower (issue_type_of i) = ''bug'') xs)
      + length (filter (\<lambda>i. lower (issue_type_of i) = ''story'') xs) \<le> length xs"
    by (induction xs) auto
  then have c2: "bug_count m + story_count m \<le> total_issues m"
    by (simp add: m bucket_bug_count bucket_story_count bucket_total_issues)
  have c3: "int (length (story_points_list m)) = total_issues m"
    by (simp add: m bucket_story_points_list bucket_total_issues)
  have c4: "fgt0 ct \<and> (\<exists>issue \<in> set issues. \<exists>a.
                get_assignee_name issue = Inr a \<and> same_key a k
              \<and> get_status_category issue = Inr ''done''
              \<and> get_cycle_time_days env issue = Inr ct)"
    if "ct \<in> set (cycle_times m)" for ct
  proof -
    from that obtain i where i: "i \<in> set xs" "is_done i" "ct = cycle_time_of env i" "fgt0 ct"
      by (auto simp: m bucket_cycle_times)
    have ii: "i \<in> set issues" "has_assignee k i" using i(1) by (simp_all add: xs_def)
    have oki: "issue_ok env i" using ok ii(1) by simp
    show ?thesis
      using i ii issue_ok_done [OF oki] issue_ok_cycle_time [OF oki] issue_ok_assignee [OF oki]
      by (auto simp: has_assignee_def)
  qed
  show ?thesis using c1 c2 c3 c4 by blast
qed

theorem bucket_invariants_witness:
  "compute_metrics example_env team_issues = Inr team_metrics
   \<and> (JStr ''Ada'', snd (hd team_metrics)) \<in> set team_metrics
   \<and> completed_issues (snd (hd team_metrics)) \<le> total_issues (snd (hd team_metrics))
   \<and> bug_count (snd (hd team_metrics)) + story_count (snd (hd team_metrics))
       \<le> total_issues (snd (hd team_metrics))
   \<and> int (length (story_points_list (snd (hd team_metrics)))) = total_issues (snd (hd team_metrics))
   \<and> Fin (5 / 2) \<in> set (cycle_times (snd (hd team_metrics)))
   \<and> fgt0 (Fin (5 / 2))"
proof -
  have ada: "(JStr ''Ada'', snd (hd team_metrics)) \<in> set team_metrics"
    by (simp add: team_metrics_def)
  have ct: "Fin (5 / 2) \<in> set (cycle_times (snd (hd team_metrics)))"
    by (simp add: team_metrics_def)
  note t = bucket_invariants [OF team_metrics_eval ada]
  show ?thesis using team_metrics_eval ada ct t by blast
qed

section \<open>Sprint totals\<close>

text \<open>
  Claim C8. \<^verbatim>\<open>compute_sprint_totals\<close> adds up only the buckets whose key is not
  \<^verbatim>\<open>'Unassigned'\<close>: each total is the sum (for the story points, the float sum in bucket
  order) over those buckets. So the sprint totals, and with them every line of the sprint
  summary, are what they would be had the issues without assignee not been in the sprint.
\<close>

theorem sprint_totals_exclude_unassigned:
  assumes "compute_metrics env issues = Inr metrics"
  shows "compute_sprint_totals metrics = compute_sprint_totals (assigned metrics)
       \<and> sum_total_issues (compute_sprint_totals metrics)
           = sum_list (map (\<lambda>(k, m). total_issues m) (assigned metrics))
       \<and> sum_completed_issues (compute_sprint_totals metrics)
           = sum_list (map (\<lambda>(k, m). completed_issues m) (assigned metrics))
       \<and> sum_total_story_points (compute_sprint_totals metrics)
           = py_sum (map (\<lambda>(k, m). total_story_points m) (assigned metrics))
       \<and> sum_completed_story_points (compute_sprint_totals metrics)
           = py_sum (map (\<lambda>(k, m). completed_story_points m) (assigned metrics))
       \<and> total_bugs (compute_sprint_totals metrics)
           = sum_list (map (\<lambda>(k, m). bug_count m) (assigned metrics))
       \<and> total_stories (compute_sprint_totals metrics)
           = sum_list (map (\<lambda>(k, m). story_count m) (assigned metrics))
       \<and> all_cycle_times (compute_sprint_totals metrics)
           = concat (map (\<lambda>(k, m). cycle_times m) (assigned metrics))
       \<and> all_story_points (compute_sprint_totals metrics)
           = concat (map (\<lambda>(k, m). story_points_list m) (assigned metrics))
       \<and> compute_metrics env (filter (\<lambda>i. assignee_of i \<noteq> JStr ''Unassigned'') issues)
           = Inr (assigned metrics)
       \<and> write_summary env (compute_sprint_totals metrics)
           = write_summary env (compute_sprint_totals (assigned metrics))"
proof -
  have eq: "compute_sprint_totals metrics = compute_sprint_totals (assigned metrics)"
    by (simp add: compute_sprint_totals_def totals_loop_assigned)
  have t: "compute_sprint_totals metrics
      = foldl (\<lambda>t (k, m). add_totals m t) zero_totals (assigned metrics)"
    by (simp add: compute_sprint_totals_def totals_loop_assigned)
  have fields:
    "sum_total_issues (compute_sprint_totals metrics)
       = sum_list (map (\<lambda>(k, m). total_issues m) (assigned metrics))"
    "sum_completed_issues (compute_sprint_totals metrics)
       = sum_list (map (\<lambda>(k, m). completed_issues m) (assigned metrics))"
    "sum_total_story_points (compute_sprint_totals metrics)
       = py_sum (map (\<lambda>(k, m). total_story_points m) (assigned metrics))"
    "sum_completed_story_points (compute_sprint_totals metrics)
       = py_sum (map (\<lambda>(k, m). completed_story_points m) (assigned metrics))"
    "total_bugs (compute_sprint_totals metrics)
       = sum_list (map (\<lambda>(k, m). bug_count m) (assigned metrics))"
    "total_stories (compute_sprint_totals metrics)
       = sum_list (map (\<lambda>(k, m). story_count m) (assigned metrics))"
    "all_cycle_times (compute_sprint_totals metrics)
       = concat (map (\<lambda>(k, m). cycle_times m) (assigned metrics))"
    "all_story_points (compute_sprint_totals metrics)
       = concat (map (\<lambda>(k, m). story_points_list m) (assigned metrics))"
    unfolding t
    by (simp_all add: foldl_sum_total_issues foldl_sum_completed_issues
        foldl_sum_total_story_points foldl_sum_completed_story_points foldl_total_bugs
        foldl_total_stories foldl_all_cycle_times foldl_all_story_points
        zero_totals_def py_sum_def)
  have issues: "compute_metrics env (filter (\<lambda>i. assignee_of i \<noteq> JStr ''Unassigned'') issues)
      = Inr (assigned metrics)"
    using assms by (rule compute_metrics_assigned)
  have sm: "write_summary env (compute_sprint_totals metrics)
      = write_summary env (compute_sprint_totals (assigned metrics))"
    using eq by simp
  show ?thesis using eq fields issues sm by blast
qed

theorem sprint_totals_exclude_unassigned_witness:
  "compute_metrics example_env team_issues = Inr team_metrics
   \<and> sum_total_issues (compute_sprint_totals team_metrics) = 3
   \<and> sum_completed_story_points (compute_sprint_totals team_metrics) = Fin 5
   \<and> compute_metrics example_env (take 3 team_issues) = Inr (take 2 team_metrics)"
proof -
  note t = sprint_totals_exclude_unassigned [OF team_metrics_eval]
  have a: "assigned team_metrics = take 2 team_metrics"
    by (simp add: assigned_def team_metrics_def)
  have f: "filter (\<lambda>i. assignee_of i \<noteq> JStr ''Unassigned'') team_issues = take 3 team_issues"
    by (simp add: team_issues_def assignee_of_def example_eval extract_eval
        cong: and_then_weak_cong)
  have b: "sum_list (map (\<lambda>(k, m). total_issues m) (take 2 team_metrics)) = 3"
    by (simp add: team_metrics_def)
  have c: "py_sum (map (\<lambda>(k, m). completed_story_points m) (take 2 team_metrics)) = Fin 5"
    by (simp add: team_metrics_def py_sum_def rnd_eval)
  from t have x1: "sum_total_issues (compute_sprint_totals team_metrics)
      = sum_list (map (\<lambda>(k, m). total_issues m) (assigned team_metrics))"
    by blast
  from t have x2: "sum_completed_story_points (compute_sprint_totals team_metrics)
      = py_sum (map (\<lambda>(k, m). completed_story_points m) (assigned team_metrics))"
    by blast
  from t have x3: "compute_metrics example_env
        (filter (\<lambda>i. assignee_of i \<noteq> JStr ''Unassigned'') team_issues)
      = Inr (assigned team_metrics)"
    by blast
  show ?thesis
    using team_metrics_eval x1 [unfolded a b] x2 [unfolded a c] x3 [unfolded a f] by blast
qed

section \<open>Team velocity\<close>

text \<open>
  Claim C1, as the code has it. The value of the line \<^verbatim>\<open>Team Velocity (Completed SP)\<close>
  is the sum, over the buckets other than \<^verbatim>\<open>'Unassigned'\<close> in the order the assignees
  first appear, of the bucket's completed story points; these are the float sum of the story
  points of the assignee's issues whose status category is done. Done issues that nobody is
  assigned to are not counted.
\<close>

theorem team_velocity_of_assigned:
  assumes "compute_metrics env issues = Inr metrics"
      and "write_csv env metrics = Inr file"
  shows "Team_Velocity (summary file) =
     py_sum (map (\<lambda>(k, m). py_sum (map (story_points_of env)
                               (filter (\<lambda>i. has_assignee k i \<and> is_done i) issues)))
               (assigned metrics))"
proof -
  have v: "Team_Velocity (summary file)
      = sum_completed_story_points (compute_sprint_totals metrics)"
    using write_summary_velocity [OF write_csv_summary [OF assms(2)]] .
  have t: "sum_completed_story_points (compute_sprint_totals metrics)
      = py_sum (map (\<lambda>(k, m). completed_story_points m) (assigned metrics))"
    by (simp add: compute_sprint_totals_def totals_loop_assigned
        foldl_sum_completed_story_points zero_totals_def py_sum_def)
  have b: "completed_story_points m =
      py_sum (map (story_points_of env) (filter (\<lambda>i. has_assignee k i \<and> is_done i) issues))"
    if "(k, m) \<in> set (assigned metrics)" for k m
  proof -
    from that have "(k, m) \<in> set metrics" by (simp add: assigned_def)
    then have "m = bucket_of env (filter (has_assignee k) issues)"
      using assms(1) metrics_bucket by blast
    then show ?thesis by (simp add: bucket_completed_story_points py_sum_def)
  qed
  have m: "map (\<lambda>(k, m). completed_story_points m) (assigned metrics)
      = map (\<lambda>(k, m). py_sum (map (story_points_of env)
                               (filter (\<lambda>i. has_assignee k i \<and> is_done i) issues)))
          (assigned metrics)"
  proof (rule map_cong [OF refl])
    fix p assume p: "p \<in> set (assigned metrics)"
    obtain k m where km: "p = (k, m)" by (cases p)
    show "(case p of (k, m) \<Rightarrow> completed_story_points m)
        = (case p of (k, m) \<Rightarrow> py_sum (map (story_points_of env)
                               (filter (\<lambda>i. has_assignee k i \<and> is_done i) issues)))"
      using b [of k m] p unfolding km by simp
  qed
  show ?thesis by (simp only: v t m)
qed

theorem team_velocity_of_assigned_witness:
  "compute_metrics example_env team_issues = Inr team_metrics
   \<and> write_csv example_env team_metrics = Inr team_csv
   \<and> Team_Velocity (summary team_csv) =
       py_sum (map (\<lambda>(k, m). py_sum (map (story_points_of example_env)
                                 (filter (\<lambda>i. has_assignee k i \<and> is_done i) team_issues)))
                 (assigned team_metrics))"
  using team_velocity_of_assigned [OF team_metrics_eval team_csv_eval]
    team_metrics_eval team_csv_eval by blast

text \<open>
  The claim as stated fails on the four issues of the team: the done issues have 3, 2 and 8
  story points, 13 in all, and the file reports a velocity of 5, because the issue of 8 points
  has no assignee.
\<close>

theorem team_velocity_counterexample:
  "compute_metrics example_env team_issues = Inr team_metrics
   \<and> write_csv example_env team_metrics = Inr team_csv
   \<and> Team_Velocity (summary team_csv) = Fin 5
   \<and> py_sum (map (story_points_of example_env) (filter is_done team_issues)) = Fin 13"
proof -
  have d: "map (story_points_of example_env) (filter is_done team_issues) = [Fin 3, Fin 2, Fin 8]"
    by (simp add: team_issues_def is_done_def status_of_def story_points_of_def
        DONE_STATUS_CATEGORIES_def example_eval extract_eval rnd_eval
        cong: and_then_weak_cong)
  have s: "py_sum [Fin 3, Fin 2, Fin 8] = Fin 13"
    by (simp add: py_sum_def rnd_eval)
  have v: "Team_Velocity (summary team_csv) = Fin 5"
    by (simp add: team_csv_def)
  show ?thesis using team_metrics_eval team_csv_eval v d s by simp
qed

section \<open>Completion rates\<close>

text \<open>
  Claim C5. The file has one row per assignee. In the row of an assignee with bucket \<open>m\<close>,
  \<^verbatim>\<open>Completion % (Issues)\<close> is \<open>100.0 * completed_issues / total_issues\<close> rounded to one
  decimal when \<open>total_issues\<close> is positive, and 0.0 otherwise; \<^verbatim>\<open>Completion % (Story
  Points)\<close> is \<open>100.0 * completed_story_points / total_story_points\<close> rounded to one
  decimal when \<open>total_story_points\<close> is positive, and 0.0 otherwise (also for a NaN). The
  divisor is never zero, and neither computation raises \<^verbatim>\<open>ZeroDivisionError\<close>.
\<close>

theorem completion_rates_per_assignee:
  assumes "write_csv env metrics = Inr file"
  shows "length (rows file) = length metrics
       \<and> (\<forall>(k, m) \<in> set metrics. \<exists>row \<in> set (rows file). k = JStr (Assignee row))
       \<and> (\<forall>row \<in> set (rows file). \<exists>m. (JStr (Assignee row), m) \<in> set metrics
            \<and> (if 0 < total_issues m
                then \<exists>fc ft q. float_of_int (completed_issues m) = Inr fc
                       \<and> float_of_int (total_issues m) = Inr ft \<and> ft \<noteq> Fin 0
                       \<and> fdiv (fmul (Fin 100) fc) ft = Inr q
                       \<and> Completion_Pct_Issues row = round1 q
                else Completion_Pct_Issues row = Fin 0)
            \<and> (if fgt0 (total_story_points m)
                then total_story_points m \<noteq> Fin 0
                   \<and> (\<exists>q. fdiv (fmul (Fin 100) (completed_story_points m))
                             (total_story_points m) = Inr q
                          \<and> Completion_Pct_Story_Points row = round1 q)
                else Completion_Pct_Story_Points row = Fin 0))
       \<and> completion_pct_issues c t \<noteq> Inl ZeroDivisionError
       \<and> completion_pct_story_points a b \<noteq> Inl ZeroDivisionError"
proof -
  from assms obtain items where items: "sorted_items metrics = Inr items"
      and rs: "write_rows env (all_issue_types metrics) items = Inr (rows file)"
    by (auto simp: write_csv_def and_then_eq_Inr)
  note s = sorted_items_Inr [OF items]
  have rel: "list_all2 (\<lambda>(a, m) row. assignee_row env (all_issue_types metrics) a m = Inr row)
      items (rows file)"
    using rs by (rule write_rows_Inr)
  have len: "length (rows file) = length metrics"
    using list_all2_lengthD [OF rel] s(2) by simp
  have every: "\<exists>row \<in> set (rows file). k = JStr (Assignee row)" if "(k, m) \<in> set metrics" for k m
  proof -
    from that s(1) obtain name where k: "k = JStr name" and "(name, m) \<in> set items" by auto
    then obtain i where i: "i < length items" "items ! i = (name, m)"
      by (auto simp: in_set_conv_nth)
    then have "assignee_row env (all_issue_types metrics) name m = Inr (rows file ! i)"
      using list_all2_nthD [OF rel i(1)] by simp
    then have "Assignee (rows file ! i) = name" by (rule assignee_row_Inr)
    moreover have "rows file ! i \<in> set (rows file)"
      using i(1) list_all2_lengthD [OF rel] by simp
    ultimately show ?thesis using k by auto
  qed
  have row: "\<exists>m. (JStr (Assignee row), m) \<in> set metrics
            \<and> (if 0 < total_issues m
                then \<exists>fc ft q. float_of_int (completed_issues m) = Inr fc
                       \<and> float_of_int (total_issues m) = Inr ft \<and> ft \<noteq> Fin 0
                       \<and> fdiv (fmul (Fin 100) fc) ft = Inr q
                       \<and> Completion_Pct_Issues row = round1 q
                else Completion_Pct_Issues row = Fin 0)
            \<and> (if fgt0 (total_story_points m)
                then total_story_points m \<noteq> Fin 0
                   \<and> (\<exists>q. fdiv (fmul (Fin 100) (completed_story_points m))
                             (total_story_points m) = Inr q
                          \<and> Completion_Pct_Story_Points row = round1 q)
                else Completion_Pct_Story_Points row = Fin 0)"
    if "row \<in> set (rows file)" for row
  proof -
    from that obtain i where i: "i < length (rows file)" "rows file ! i = row"
      by (auto simp: in_set_conv_nth)
    have il: "i < length items" using i(1) list_all2_lengthD [OF rel] by simp
    obtain name m where nm: "items ! i = (name, m)" by (cases "items ! i")
    have r: "assignee_row env (all_issue_types metrics) name m = Inr row"
      using list_all2_nthD [OF rel il] nm i(2) by simp
    note f = assignee_row_Inr [OF r]
    have "(name, m) \<in> set items" using il nm by (metis nth_mem)
    then have mem: "(JStr (Assignee row), m) \<in> set metrics" using s(1) f(1) by force
    have p1: "if 0 < total_issues m
                then \<exists>fc ft q. float_of_int (completed_issues m) = Inr fc
                       \<and> float_of_int (total_issues m) = Inr ft \<and> ft \<noteq> Fin 0
                       \<and> fdiv (fmul (Fin 100) fc) ft = Inr q
                       \<and> Completion_Pct_Issues row = round1 q
                else Completion_Pct_Issues row = Fin 0"
    proof (cases "0 < total_issues m")
      case True
      then have "pct_of_ints (completed_issues m) (total_issues m)
          = Inr (Completion_Pct_Issues row)"
        using f(2) by (simp add: completion_pct_issues_def)
      then show ?thesis using True pct_of_ints_Inr [OF True] by simp
    next
      case False
      then show ?thesis using f(2) by (simp add: completion_pct_issues_def)
    qed
    have p2: "if fgt0 (total_story_points m)
                then total_story_points m \<noteq> Fin 0
                   \<and> (\<exists>q. fdiv (fmul (Fin 100) (completed_story_points m))
                             (total_story_points m) = Inr q
                          \<and> Completion_Pct_Story_Points row = round1 q)
                else Completion_Pct_Story_Points row = Fin 0"
      using f(3) fgt0_nonzero [of "total_story_points m"]
      by (auto simp: completion_pct_story_points_def pct_of_floats_Inr)
    show ?thesis using mem p1 p2 by blast
  qed
  have z1: "completion_pct_issues c t \<noteq> Inl ZeroDivisionError"
    using pct_of_ints_no_zero_division [of t c] by (simp add: completion_pct_issues_def)
  have z2: "completion_pct_story_points a b \<noteq> Inl ZeroDivisionError"
    using fgt0_nonzero [of b]
    by (auto simp: completion_pct_story_points_def pct_of_floats_def and_then_def fdiv_Inl
        split: sum.splits)
  show ?thesis using len every row z1 z2 by blast
qed

theorem completion_rates_per_assignee_witness:
  "write_csv example_env team_metrics = Inr team_csv
   \<and> length (rows team_csv) = length team_metrics
   \<and> completion_pct_issues 2 3 \<noteq> Inl ZeroDivisionError
   \<and> completion_pct_story_points (Fin 5) (Fin 10) \<noteq> Inl ZeroDivisionError
   \<and> Completion_Pct_Issues (hd (rows team_csv)) = Fin 100
   \<and> Completion_Pct_Story_Points (hd (rows team_csv)) = Fin 100"
proof -
  note t = completion_rates_per_assignee [OF team_csv_eval, of 2 3 "Fin 5" "Fin 10"]
  have v: "Completion_Pct_Issues (hd (rows team_csv)) = Fin 100"
     "Completion_Pct_Story_Points (hd (rows team_csv)) = Fin 100"
    by (simp_all add: team_csv_def)
  show ?thesis using t team_csv_eval v by blast
qed

section \<open>Cycle time\<close>

text \<open>
  Claim C4, as the code has it. For an issue whose \<^verbatim>\<open>fields\<close> entry is a dictionary: when
  \<^verbatim>\<open>created\<close> and \<^verbatim>\<open>resolutiondate\<close> both hold a timestamp and both timestamps carry a
  UTC offset, or neither does, \<^verbatim>\<open>get_cycle_time_days\<close> returns the time from creation to
  resolution in days, rounded to one decimal; when only one of them carries an offset, and
  when a field holds no timestamp (it is missing, null, empty, not a string, or does not
  parse), it returns 0.0.
\<close>

theorem cycle_time_in_days:
  assumes "subscript issue ''fields'' = Inr (JDict f)" and "valid_datetimes env"
  shows "(\<forall>c r. timestamp_of env f ''created'' = Some c
              \<and> timestamp_of env f ''resolutiondate'' = Some r \<longrightarrow>
            get_cycle_time_days env issue =
              (if aware c = aware r
               then Inr (round1 (elapsed_days (instant_us r - instant_us c)))
               else Inr (Fin 0)))
       \<and> (timestamp_of env f ''created'' = None \<or> timestamp_of env f ''resolutiondate'' = None
            \<longrightarrow> get_cycle_time_days env issue = Inr (Fin 0))"
  unfolding get_cycle_time_days_fields [OF assms]
  by (auto split: option.splits)

theorem cycle_time_in_days_witness:
  "subscript (issue_with ada_bug_fields) ''fields'' = Inr (JDict ada_bug_fields)
   \<and> valid_datetimes example_env
   \<and> timestamp_of example_env ada_bug_fields ''created''
       = Some \<lparr>wall_us = 63839664000000000, utcoffset_us = Some 0\<rparr>
   \<and> timestamp_of example_env ada_bug_fields ''resolutiondate''
       = Some \<lparr>wall_us = 63839880000000000, utcoffset_us = Some 0\<rparr>
   \<and> get_cycle_time_days example_env (issue_with ada_bug_fields) = Inr (Fin (5 / 2))"
proof -
  have c: "timestamp_of example_env ada_bug_fields ''created''
       = Some \<lparr>wall_us = 63839664000000000, utcoffset_us = Some 0\<rparr>"
    by (simp add: timestamp_of_def ada_bug_fields_def example_fields_def example_env_def
        example_fromisoformat_def replace_Z_def)
  have r: "timestamp_of example_env ada_bug_fields ''resolutiondate''
       = Some \<lparr>wall_us = 63839880000000000, utcoffset_us = Some 0\<rparr>"
    by (simp add: timestamp_of_def ada_bug_fields_def example_fields_def example_env_def
        example_fromisoformat_def replace_Z_def)
  have e: "round1 (elapsed_days (63839880000000000 - 0 - (63839664000000000 - 0))) = Fin (5 / 2)"
    by (simp add: elapsed_days_def rnd_eval)
  note t = cycle_time_in_days [OF issue_with_fields valid_example_env, of ada_bug_fields]
  from t c r have "get_cycle_time_days example_env (issue_with ada_bug_fields) =
      Inr (round1 (elapsed_days (63839880000000000 - 0 - (63839664000000000 - 0))))"
    by (simp add: aware_def instant_us_def)
  then show ?thesis using c r e issue_with_fields valid_example_env by simp
qed

text \<open>
  The claim as stated fails when one timestamp carries an offset and the other does not:
  both fields are present and parse, ten days apart, and the function returns 0.0, because
  the subtraction raises \<^verbatim>\<open>TypeError\<close>, which the function catches.
\<close>

theorem cycle_time_counterexample:
  "timestamp_of example_env mixed_zone_fields ''created''
       = Some \<lparr>wall_us = 63839664000000000, utcoffset_us = Some 0\<rparr>
   \<and> timestamp_of example_env mixed_zone_fields ''resolutiondate''
       = Some \<lparr>wall_us = 63840528000000000, utcoffset_us = None\<rparr>
   \<and> get_cycle_time_days example_env (issue_with mixed_zone_fields) = Inr (Fin 0)"
  by (simp add: timestamp_of_def mixed_zone_fields_def example_eval extract_eval
      cong: and_then_weak_cong)

section \<open>Totality of the extractors\<close>

text \<open>
  Claim C9, as the code has it. For an issue whose \<^verbatim>\<open>fields\<close> entry is a dictionary in which
  \<^verbatim>\<open>assignee\<close>, \<^verbatim>\<open>status\<close>, its \<^verbatim>\<open>statusCategory\<close> and \<^verbatim>\<open>issuetype\<close> are absent, null
  or dictionaries, \<^verbatim>\<open>displayName\<close> and \<^verbatim>\<open>emailAddress\<close> are absent, null or strings, the
  category's \<^verbatim>\<open>key\<close> is absent or a string, and an integer story-points value is within
  the range of doubles, the five extractors return: \<^verbatim>\<open>get_assignee_name\<close> a non-empty
  string, \<^verbatim>\<open>get_story_points\<close> a float, which is 0.0 for a missing or null value and for
  any value that \<^verbatim>\<open>float\<close> rejects, and the converted value otherwise.
\<close>

theorem extractors_return:
  assumes "subscript issue ''fields'' = Inr (JDict f)"
      and "assignee_typed f" and "status_typed f" and "issuetype_typed f"
      and "story_points_in_range env f" and "valid_datetimes env"
  shows "(\<exists>name. get_assignee_name issue = Inr (JStr name) \<and> name \<noteq> [])
       \<and> (\<exists>s. get_status_category issue = Inr s)
       \<and> (\<exists>t. get_issue_type issue = Inr t)
       \<and> (\<exists>x. get_story_points env issue = Inr x)
       \<and> (\<exists>c. get_cycle_time_days env issue = Inr c)
       \<and> get_story_points env issue =
           (case map_of f (STORY_POINTS_FIELD env) of
              None \<Rightarrow> Inr (Fin 0)
            | Some v \<Rightarrow> if float_rejects env v then Inr (Fin 0) else py_float env v)"
proof -
  have ct: "\<exists>c. get_cycle_time_days env issue = Inr c"
    unfolding get_cycle_time_days_fields [OF assms(1) assms(6)]
    by (simp split: option.splits)
  show ?thesis
    using get_assignee_name_typed [OF assms(1,2)] get_status_category_typed [OF assms(1,3)]
      get_issue_type_typed [OF assms(1,4)] get_story_points_typed [OF assms(1,5)]
      get_story_points_fields [OF assms(1)] ct
    by blast
qed

theorem extractors_return_witness:
  "subscript (issue_with ada_bug_fields) ''fields'' = Inr (JDict ada_bug_fields)
   \<and> assignee_typed ada_bug_fields \<and> status_typed ada_bug_fields
   \<and> issuetype_typed ada_bug_fields \<and> story_points_in_range example_env ada_bug_fields
   \<and> valid_datetimes example_env
   \<and> (\<exists>name. get_assignee_name (issue_with ada_bug_fields) = Inr (JStr name) \<and> name \<noteq> [])
   \<and> (\<exists>x. get_story_points example_env (issue_with ada_bug_fields) = Inr x)
   \<and> (\<exists>c. get_cycle_time_days example_env (issue_with ada_bug_fields) = Inr c)"
proof -
  have t: "assignee_typed ada_bug_fields" "status_typed ada_bug_fields"
      "issuetype_typed ada_bug_fields" "story_points_in_range example_env ada_bug_fields"
    by (simp_all add: ada_bug_fields_def example_fields_def user_def example_env_def
        assignee_typed_def status_typed_def category_typed_def issuetype_typed_def
        story_points_in_range_def)
  show ?thesis
    using extractors_return [OF issue_with_fields t valid_example_env] issue_with_fields t
      valid_example_env
    by blast
qed

text \<open>
  The claim as stated fails for an issue whose \<^verbatim>\<open>fields\<close> entry is a dictionary and whose
  assignee is a string: \<^verbatim>\<open>assignee.get\<close> raises \<^verbatim>\<open>AttributeError\<close>.
\<close>

theorem extractors_return_counterexample:
  "subscript (issue_with string_assignee_fields) ''fields'' = Inr (JDict string_assignee_fields)
   \<and> get_assignee_name (issue_with string_assignee_fields) = Inl AttributeError"
  by (simp add: issue_with_fields get_assignee_name_def string_assignee_fields_def
      example_fields_def dict_get_def cong: and_then_weak_cong)

section \<open>Fetching a sprint\<close>

text \<open>
  Against a server that answers each request for 100 issues from \<^verbatim>\<open>startAt\<close> with that
  page of the sprint's issues and with their number as \<^verbatim>\<open>total\<close>, the loop ends and returns
  exactly the issues of the sprint, in order.
\<close>

lemma fetch_from_paging_server:
  assumes "serves_pages get all"
  shows "fetch_issues_for_sprint get = Some (Inr all)"
  using fetch_loop_paged [OF assms, of 0] by (simp add: fetch_issues_for_sprint_def)

lemma fetch_250_issues:
  "fetch_issues_for_sprint (\<lambda>s m. Inr (jira_page (numbered_issues 0 250) s m))
     = Some (Inr (numbered_issues 0 250))"
  using fetch_from_paging_server [OF jira_page_serves] .

text \<open>
  Claim C2. \<^verbatim>\<open>fetch_issues_for_sprint\<close> is documented to fetch all issues of the sprint, and
  it does not: after each page it advances \<^verbatim>\<open>startAt\<close> by the 100 issues it asked for, not by
  the number of issues it received. For a sprint of 120 issues on a server that returns at
  most 50 issues per page, it requests the pages at 0 and at 100 and returns 70 issues, the
  issues 0 to 49 and 100 to 119; the issues 50 to 99 of the sprint are omitted.
\<close>

theorem fetch_omits_issues_of_capped_server:
  "fetch_issues_for_sprint (\<lambda>s m. Inr (capped_page 50 (numbered_issues 0 120) s m))
     = Some (Inr (numbered_issues 0 50 @ numbered_issues 100 120))
   \<and> fetch_issues_for_sprint (\<lambda>s m. Inr (capped_page 50 (numbered_issues 0 120) s m))
     \<noteq> Some (Inr (numbered_issues 0 120))
   \<and> length (numbered_issues 0 50 @ numbered_issues 100 120) = 70
   \<and> length (numbered_issues 0 120) = 120"
proof -
  let ?get = "\<lambda>s m. Inr (capped_page 50 (numbered_issues 0 120) s m)"
  have i0: "dict_get (capped_page 50 (numbered_issues 0 120) 0 100) ''issues'' (JList [])
      = Inr (JList (numbered_issues 0 50))"
    by (simp add: capped_page_def numbered_issues_def take_map)
  have i1: "dict_get (capped_page 50 (numbered_issues 0 120) 100 100) ''issues'' (JList [])
      = Inr (JList (numbered_issues 100 120))"
    by (simp add: capped_page_def numbered_issues_def take_map drop_map)
  have t: "dict_get (capped_page 50 (numbered_issues 0 120) s 100) ''total'' (JInt 0)
      = Inr (JInt 120)" for s
    by (simp add: capped_page_def numbered_issues_def)
  have s0: "fetch_loop ?get [] 0 = fetch_loop ?get (numbered_issues 0 50) 100"
    using fetch_loop_step [where get = ?get and s = 0 and issues = "[]", OF refl i0 t]
    by simp
  have s1: "fetch_loop ?get (numbered_issues 0 50) 100
      = Some (Inr (numbered_issues 0 50 @ numbered_issues 100 120))"
    using fetch_loop_step [where get = ?get and s = 100 and issues = "numbered_issues 0 50",
        OF refl i1 t]
    by simp
  have r: "fetch_issues_for_sprint ?get
      = Some (Inr (numbered_issues 0 50 @ numbered_issues 100 120))"
    by (simp only: fetch_issues_for_sprint_def s0 s1)
  have l: "length (numbered_issues 0 50 @ numbered_issues 100 120) = 70"
      "length (numbered_issues 0 120) = 120"
    by (simp_all add: numbered_issues_def)
  have d: "numbered_issues 0 50 @ numbered_issues 100 120 \<noteq> numbered_issues 0 120"
  proof
    assume "numbered_issues 0 50 @ numbered_issues 100 120 = numbered_issues 0 120"
    then have "length (numbered_issues 0 50 @ numbered_issues 100 120)
        = length (numbered_issues 0 120)"
      by (rule arg_cong)
    then show False unfolding l by simp
  qed
  show ?thesis using r l d by simp
qed

section \<open>The field detector\<close>





end
